theory Spec2Isabelle
  imports Main
begin

section \<open>JavaScript values and strings\<close>

text \<open>
  A feed entry is a JavaScript object produced by the feed parser. A property of it is
  absent, a string, or some other truthy value: an array, or an object. An object carries
  the text that its conversion to a string gives, \<open>None\<close> when it has no such conversion
  (an object without a prototype). Strings are lists of code units, one \<^typ>\<open>char\<close>
  each: the model covers the strings whose code units are below 256. Numbers (counters,
  time values in milliseconds) are integers.
\<close>

datatype jsval = JUndefined | JString string | JObject "string option" | JArray "jsval list"

datatype error = Error (err_name: string) (err_message: string)

definition typeError :: "string \<Rightarrow> error" where
  "typeError m = Error ''TypeError'' m"

fun truthy :: "jsval \<Rightarrow> bool" where
  "truthy JUndefined = False"
| "truthy (JString s) = (s \<noteq> [])"
| "truthy (JObject t) = True"
| "truthy (JArray xs) = True"

definition js_or :: "jsval \<Rightarrow> jsval \<Rightarrow> jsval" where
  "js_or a b = (if truthy a then a else b)"

text \<open>The class \<open>\s\<close> of the regular expressions, which is also what \<open>trim\<close> removes.\<close>

definition isSpace :: "char \<Rightarrow> bool" where
  "isSpace c = (c \<in> set [CHR 0x09, CHR 0x0A, CHR 0x0B, CHR 0x0C, CHR 0x0D, CHR 0x20, CHR 0xA0])"

definition trim :: "string \<Rightarrow> string" where
  "trim s = rev (dropWhile isSpace (rev (dropWhile isSpace s)))"

definition toLowerChar :: "char \<Rightarrow> char" where
  "toLowerChar c =
     (let n = (of_char c :: nat)
      in if (65 \<le> n \<and> n \<le> 90) \<or> (192 \<le> n \<and> n \<le> 222 \<and> n \<noteq> 215)
         then char_of (n + 32) else c)"

definition toLowerCase :: "string \<Rightarrow> string" where
  "toLowerCase s = map toLowerChar s"

definition substring0 :: "nat \<Rightarrow> string \<Rightarrow> string" where
  "substring0 n s = take n s"

text \<open>\<open>s.replace(/<[^>]*>/g, '')\<close>: every \<open><\<close> that has a \<open>>\<close> after it is removed
  together with everything up to the first such \<open>>\<close>.\<close>

function stripTags :: "string \<Rightarrow> string" where
  "stripTags [] = []"
| "stripTags (c # cs) =
     (if c = CHR ''<'' then
        (case dropWhile (\<lambda>d. d \<noteq> CHR ''>'') cs of
           [] \<Rightarrow> c # stripTags cs
         | g # rest \<Rightarrow> stripTags rest)
      else c # stripTags cs)"
  by pat_completeness auto
termination
proof (relation "measure length")
  fix c :: char and cs g rest
  assume "dropWhile (\<lambda>d. d \<noteq> CHR ''>'') cs = g # rest"
  then have "length (g # rest) \<le> length cs"
    by (metis length_dropWhile_le)
  then show "(rest, c # cs) \<in> measure length" by simp
qed auto

text \<open>\<open>s.split(/\s+/)\<close>: the pieces between the maximal runs of white space, the empty
  pieces at both ends included; the empty string gives one empty piece.\<close>

function split_ws :: "string \<Rightarrow> string list" where
  "split_ws s =
     (case dropWhile (\<lambda>c. \<not> isSpace c) s of
        [] \<Rightarrow> [s]
      | w # rest \<Rightarrow> takeWhile (\<lambda>c. \<not> isSpace c) s # split_ws (dropWhile isSpace rest))"
  by pat_completeness auto
termination
proof (relation "measure length")
  fix s :: string and w rest
  assume a: "dropWhile (\<lambda>c. \<not> isSpace c) s = w # rest"
  have "length (dropWhile isSpace rest) \<le> length rest"
    by (rule length_dropWhile_le)
  moreover have "length (w # rest) \<le> length s"
    by (metis a length_dropWhile_le)
  ultimately show "(dropWhile isSpace rest, s) \<in> measure length" by simp
qed auto

declare split_ws.simps [simp del]

text \<open>The text of a value inside a template literal: a string as it is, an array as the
  texts of its members joined by commas (nothing for an absent member), an object as its
  conversion gives it; an object without that conversion throws.\<close>

fun joinComma :: "string list \<Rightarrow> string" where
  "joinComma [] = []"
| "joinComma [t] = t"
| "joinComma (t # u # ts) = t @ '','' @ joinComma (u # ts)"

fun toText :: "jsval \<Rightarrow> error + string"
  and memberTexts :: "jsval list \<Rightarrow> error + string list" where
  "toText JUndefined = Inr ''undefined''"
| "toText (JString s) = Inr s"
| "toText (JObject t) =
     (case t of
        None \<Rightarrow> Inl (typeError ''Cannot convert object to primitive value'')
      | Some s \<Rightarrow> Inr s)"
| "toText (JArray xs) =
     (case memberTexts xs of Inl e \<Rightarrow> Inl e | Inr ts \<Rightarrow> Inr (joinComma ts))"
| "memberTexts [] = Inr []"
| "memberTexts (x # xs) =
     (case (if x = JUndefined then Inr [] else toText x) of
        Inl e \<Rightarrow> Inl e
      | Inr t \<Rightarrow> (case memberTexts xs of Inl e \<Rightarrow> Inl e | Inr ts \<Rightarrow> Inr (t # ts)))"

section \<open>Normalising a feed entry (\<open>mediumService.js\<close>)\<close>

record item =
  item_content :: jsval
  item_content_encoded :: jsval
  item_contentSnippet :: jsval
  item_title :: jsval
  item_creator :: jsval
  item_dc_creator :: jsval
  item_link :: jsval
  item_guid :: jsval
  item_pubDate :: jsval
  item_isoDate :: jsval
  item_categories :: jsval

datatype sync_status = Synced | Pending | Failed

text \<open>The object \<open>parseMediumArticle\<close> returns (\<open>articleData\<close>). A date is its time
  value in milliseconds, \<open>None\<close> for an invalid date. The \<open>Date\<close> constructor and the
  clock reading \<open>now\<close> are arguments of the functions that use them.\<close>

record article =
  art_mediumId :: "string option"
  art_title :: string
  art_description :: string
  art_content :: string
  art_excerpt :: string
  art_author :: jsval
  art_mediumUrl :: jsval
  art_imageUrl :: "string option"
  art_publishedAt :: "int option"
  art_readingTime :: nat
  art_tags :: "string list"
  art_categories :: "string list"
  art_lastSyncedAt :: int
  art_syncStatus :: sync_status

text \<open>\<open>Buffer.from(s).toString('base64')\<close>: the UTF-8 bytes of the string (two bytes for
  a code unit from 128 on), three bytes to four letters, padded with \<open>=\<close>.\<close>

definition utf8 :: "string \<Rightarrow> nat list" where
  "utf8 s = concat (map (\<lambda>c. let n = (of_char c :: nat)
                               in if n < 128 then [n] else [192 + n div 64, 128 + n mod 64]) s)"

definition b64digit :: "nat \<Rightarrow> char" where
  "b64digit i = ''ABCDEFGHIJKLMNOPQRSTUVWXYZabcdefghijklmnopqrstuvwxyz0123456789+/'' ! i"

fun b64enc :: "nat list \<Rightarrow> string" where
  "b64enc [] = []"
| "b64enc [a] = [b64digit (a div 4), b64digit ((a mod 4) * 16), CHR ''='', CHR ''='']"
| "b64enc [a, b] =
     [b64digit (a div 4), b64digit ((a mod 4) * 16 + b div 16), b64digit ((b mod 16) * 4), CHR ''='']"
| "b64enc (a # b # c # rest) =
     [b64digit (a div 4), b64digit ((a mod 4) * 16 + b div 16),
      b64digit ((b mod 16) * 4 + c div 64), b64digit (c mod 64)] @ b64enc rest"

definition base64 :: "string \<Rightarrow> string" where
  "base64 s = b64enc (utf8 s)"

text \<open>\<open>content.match(/<img[^>]+src="([^">]+)"/)\<close>, first capture group.\<close>

definition notQuoteGt :: "char \<Rightarrow> bool" where
  "notQuoteGt c = (c \<noteq> CHR 0x22 \<and> c \<noteq> CHR ''>'')"

definition matchSrc :: "string \<Rightarrow> string option" where
  "matchSrc t =
     (if take 5 t = ''src='' @ [CHR 0x22] then
        (let v = takeWhile notQuoteGt (drop 5 t); r = dropWhile notQuoteGt (drop 5 t)
         in if v \<noteq> [] \<and> take 1 r = [CHR 0x22] then Some v else None)
      else None)"

fun firstSome :: "'a option list \<Rightarrow> 'a option" where
  "firstSome [] = None"
| "firstSome (None # xs) = firstSome xs"
| "firstSome (Some v # xs) = Some v"

text \<open>\<open>t\<close> is the text after an occurrence of \<open><img\<close>; the greedy \<open>[^>]+\<close> tries the
  longest prefix first.\<close>

definition imgAt :: "string \<Rightarrow> string option" where
  "imgAt t =
     (let n = length (takeWhile (\<lambda>c. c \<noteq> CHR ''>'') t)
      in firstSome (map (\<lambda>j. matchSrc (drop j t)) (rev [1..<Suc n])))"

fun firstImage :: "string \<Rightarrow> string option" where
  "firstImage [] = None"
| "firstImage (c # cs) =
     (if take 4 (c # cs) = ''<img'' then
        (case imgAt (drop 3 cs) of Some v \<Rightarrow> Some v | None \<Rightarrow> firstImage cs)
      else firstImage cs)"

definition isHex :: "char \<Rightarrow> bool" where
  "isHex c = (c \<in> set ''abcdef0123456789'')"

definition isAlnum :: "char \<Rightarrow> bool" where
  "isAlnum c =
     (let n = (of_char c :: nat)
      in (48 \<le> n \<and> n \<le> 57) \<or> (65 \<le> n \<and> n \<le> 90) \<or> (97 \<le> n \<and> n \<le> 122))"

text \<open>\<open>guid.match(/\/([a-f0-9]+)$/)\<close>: the text after the last \<open>/\<close>, when it is not empty
  and all of it is lower-case hexadecimal.\<close>

definition hexTail :: "string \<Rightarrow> string option" where
  "hexTail s =
     (if CHR ''/'' \<in> set s then
        (let h = rev (takeWhile (\<lambda>c. c \<noteq> CHR ''/'') (rev s))
         in if h \<noteq> [] \<and> list_all isHex h then Some h else None)
      else None)"

definition generateMediumId :: "jsval \<Rightarrow> error + string option" where
  "generateMediumId guid =
     (case guid of
        JUndefined \<Rightarrow> Inr None
      | JString s \<Rightarrow>
          if s = [] then Inr None
          else (case hexTail s of
                  Some h \<Rightarrow> Inr (Some h)
                | None \<Rightarrow> Inr (Some (substring0 12 (filter isAlnum (base64 s)))))
      | JObject t \<Rightarrow> Inl (typeError ''guid.match is not a function'')
      | JArray xs \<Rightarrow> Inl (typeError ''guid.match is not a function''))"

fun stringsOf :: "jsval list \<Rightarrow> string list" where
  "stringsOf [] = []"
| "stringsOf (JString s # xs) = s # stringsOf xs"
| "stringsOf (v # xs) = stringsOf xs"

definition extractTags :: "jsval \<Rightarrow> string list" where
  "extractTags categories =
     (case categories of
        JArray xs \<Rightarrow> take 10 (map (\<lambda>cat. trim (toLowerCase cat)) (stringsOf xs))
      | _ \<Rightarrow> [])"

definition extractCategories :: "jsval \<Rightarrow> string list" where
  "extractCategories categories = take 5 (extractTags categories)"

text \<open>\<open>v?.trim()\<close>: \<open>undefined\<close> when \<open>v\<close> is absent, the trimmed string when \<open>v\<close> is a
  string, a \<open>TypeError\<close> for any other value.\<close>

definition optTrim :: "jsval \<Rightarrow> error + string option" where
  "optTrim v =
     (case v of
        JUndefined \<Rightarrow> Inr None
      | JString s \<Rightarrow> Inr (Some (trim s))
      | JObject t \<Rightarrow> Inl (typeError ''trim is not a function'')
      | JArray xs \<Rightarrow> Inl (typeError ''trim is not a function''))"

definition orElse :: "string option \<Rightarrow> string \<Rightarrow> string" where
  "orElse v d = (case v of None \<Rightarrow> d | Some s \<Rightarrow> if s = [] then d else s)"

definition wordCount :: "string \<Rightarrow> nat" where
  "wordCount plainTextContent = length (split_ws plainTextContent)"

definition ceilDiv200 :: "nat \<Rightarrow> nat" where
  "ceilDiv200 n = (n + 199) div 200"

definition parseBody :: "(jsval \<Rightarrow> int option) \<Rightarrow> int \<Rightarrow> item \<Rightarrow> error + article" where
  "parseBody newDate now it =
     (case js_or (js_or (item_content it) (item_content_encoded it)) (JString []) of
        JString content \<Rightarrow>
          (let plainTextContent = stripTags content;
               readingTime = ceilDiv200 (wordCount plainTextContent);
               imageUrl = firstImage content
           in case generateMediumId (js_or (item_guid it) (item_link it)) of
                Inl e \<Rightarrow> Inl e
              | Inr mediumId \<Rightarrow>
                 (case optTrim (item_title it) of
                    Inl e \<Rightarrow> Inl e
                  | Inr title \<Rightarrow>
                     (case optTrim (item_contentSnippet it) of
                        Inl e \<Rightarrow> Inl e
                      | Inr snippet \<Rightarrow>
                          Inr \<lparr> art_mediumId = mediumId,
                                art_title = orElse title ''Untitled'',
                                art_description = orElse snippet (substring0 500 plainTextContent),
                                art_content = content,
                                art_excerpt = substring0 300 plainTextContent,
                                art_author = js_or (js_or (item_creator it) (item_dc_creator it))
                                               (JString ''Mukesh Rawat''),
                                art_mediumUrl = item_link it,
                                art_imageUrl = imageUrl,
                                art_publishedAt = newDate (js_or (item_pubDate it) (item_isoDate it)),
                                art_readingTime = readingTime,
                                art_tags = extractTags (js_or (item_categories it) (JArray [])),
                                art_categories = extractCategories (js_or (item_categories it) (JArray [])),
                                art_lastSyncedAt = now,
                                art_syncStatus = Synced \<rparr>)))
      | _ \<Rightarrow> Inl (typeError ''content.replace is not a function''))"

text \<open>The \<open>try\<close>/\<open>catch\<close> of \<open>parseMediumArticle\<close> wraps every failure of its body.\<close>

definition parseMediumArticle :: "(jsval \<Rightarrow> int option) \<Rightarrow> int \<Rightarrow> item \<Rightarrow> error + article" where
  "parseMediumArticle newDate now it =
     (case parseBody newDate now it of
        Inl e \<Rightarrow> Inl (Error ''Error'' (''Failed to parse article: '' @ err_message e))
      | Inr a \<Rightarrow> Inr a)"

section \<open>The stored posts (\<open>BlogPost.js\<close>)\<close>

datatype post_status = Published | Draft | Archived

text \<open>A document of the collection: the paths the schema declares, the key \<open>_id\<close> and the
  two time stamps kept by the schema option \<open>timestamps\<close>. An absent string is the empty
  string where the code tests it by truthiness only.\<close>

record post =
  doc_id :: nat
  mediumId :: string
  title :: string
  slug :: string
  description :: string
  content :: string
  excerpt :: string
  author :: "string option"
  tags :: "string list"
  categories :: "string list"
  mediumUrl :: "string option"
  imageUrl :: "string option"
  publishedAt :: int
  readingTime :: nat
  status :: post_status
  featured :: bool
  views :: int
  likes :: int
  metaTitle :: string
  metaDescription :: string
  lastSyncedAt :: int
  syncStatus :: sync_status
  createdAt :: int
  updatedAt :: int

text \<open>The validators that the schema declares: the required paths, the length limits and
  the two URL patterns.\<close>

definition isHttpUrl :: "string \<Rightarrow> bool" where
  "isHttpUrl v =
     (let lineEnd = (\<lambda>r. case r of [] \<Rightarrow> True | c # cs \<Rightarrow> c = CHR 0x0A \<or> c = CHR 0x0D)
      in (take 7 v = ''http://'' \<and> \<not> lineEnd (drop 7 v))
         \<or> (take 8 v = ''https://'' \<and> \<not> lineEnd (drop 8 v)))"

definition blogPostSchema_valid :: "post \<Rightarrow> bool" where
  "blogPostSchema_valid p =
     (mediumId p \<noteq> [] \<and> title p \<noteq> [] \<and> length (title p) \<le> 200 \<and> slug p \<noteq> []
      \<and> description p \<noteq> [] \<and> length (description p) \<le> 500 \<and> content p \<noteq> []
      \<and> length (excerpt p) \<le> 300
      \<and> (case mediumUrl p of None \<Rightarrow> False | Some u \<Rightarrow> isHttpUrl u)
      \<and> (case imageUrl p of None \<Rightarrow> True | Some u \<Rightarrow> u = [] \<or> isHttpUrl u)
      \<and> length (metaTitle p) \<le> 60 \<and> length (metaDescription p) \<le> 160)"

text \<open>What the code takes from outside the repository: the \<open>Date\<close> constructor; the
  verdict of the schema validation, which the object mapper runs on a document before
  the \<open>save\<close> middleware and which is \<open>blogPostSchema_valid\<close> for the schema above;
  \<open>parseInt\<close> (\<open>None\<close> for \<open>NaN\<close>); the case-insensitive regular
  expression of a pattern (\<open>None\<close> when the pattern is rejected); the order a sort
  specification puts two documents in; the comparison \<open>page == 1\<close> of a string; the cast
  of a route parameter to a document key.\<close>

record env =
  newDate :: "jsval \<Rightarrow> int option"
  validates :: "post \<Rightarrow> bool"
  parseInt :: "string \<Rightarrow> int option"
  regex_i :: "string \<Rightarrow> (string \<Rightarrow> bool) option"
  sortBefore :: "string \<Rightarrow> post \<Rightarrow> post \<Rightarrow> bool"
  looseEqualsOne :: "string \<Rightarrow> bool"
  castObjectId :: "string \<Rightarrow> nat option"

subsection \<open>Casting the values of a write\<close>

definition castString :: "jsval \<Rightarrow> error + string option" where
  "castString v =
     (case v of
        JUndefined \<Rightarrow> Inr None
      | JString s \<Rightarrow> Inr (Some s)
      | JObject t \<Rightarrow> Inl (Error ''CastError'' ''Cast to string failed'')
      | JArray xs \<Rightarrow> Inl (Error ''CastError'' ''Cast to string failed''))"

definition castDate :: "int option \<Rightarrow> error + int" where
  "castDate d =
     (case d of
        None \<Rightarrow> Inl (Error ''CastError'' ''Cast to date failed'')
      | Some t \<Rightarrow> Inr t)"

text \<open>The paths of \<open>articleData\<close> written into a document. A path whose value is
  \<open>undefined\<close> is left out of the write, so the document keeps what it has there; the
  string paths declared with \<open>trim\<close> are trimmed by their setter.\<close>

definition setArticle :: "string \<Rightarrow> article \<Rightarrow> string option \<Rightarrow> string option \<Rightarrow> int \<Rightarrow> post \<Rightarrow> post" where
  "setArticle m a au url d p =
     p\<lparr> mediumId := m,
        title := trim (art_title a),
        description := trim (art_description a),
        content := art_content a,
        excerpt := art_excerpt a,
        author := (case au of None \<Rightarrow> author p | Some s \<Rightarrow> Some s),
        tags := map trim (art_tags a),
        categories := map trim (art_categories a),
        mediumUrl := (case url of None \<Rightarrow> mediumUrl p | Some u \<Rightarrow> Some u),
        imageUrl := art_imageUrl a,
        publishedAt := d,
        readingTime := art_readingTime a,
        lastSyncedAt := art_lastSyncedAt a,
        syncStatus := art_syncStatus a \<rparr>"

definition castArticle :: "string \<Rightarrow> article \<Rightarrow> error + (post \<Rightarrow> post)" where
  "castArticle m a =
     (case castString (art_author a) of
        Inl e \<Rightarrow> Inl e
      | Inr au \<Rightarrow>
         (case castString (art_mediumUrl a) of
            Inl e \<Rightarrow> Inl e
          | Inr url \<Rightarrow>
             (case castDate (art_publishedAt a) of
                Inl e \<Rightarrow> Inl e
              | Inr d \<Rightarrow> Inr (setArticle m a au url d))))"

subsection \<open>Queries and writes\<close>

definition findOne :: "(post \<Rightarrow> bool) \<Rightarrow> post list \<Rightarrow> post option" where
  "findOne P db = List.find P db"

fun updateFirst :: "(post \<Rightarrow> bool) \<Rightarrow> (post \<Rightarrow> post) \<Rightarrow> post list \<Rightarrow> post list" where
  "updateFirst P f [] = []"
| "updateFirst P f (p # ps) = (if P p then f p # ps else p # updateFirst P f ps)"

definition findByIdAndUpdate :: "nat \<Rightarrow> (post \<Rightarrow> post) \<Rightarrow> int \<Rightarrow> post list \<Rightarrow> post list" where
  "findByIdAndUpdate i f now db =
     updateFirst (\<lambda>p. doc_id p = i) (\<lambda>p. (f p)\<lparr>updatedAt := now\<rparr>) db"

definition newId :: "post list \<Rightarrow> nat" where
  "newId db = Suc (fold max (map doc_id db) 0)"

definition blank :: "nat \<Rightarrow> int \<Rightarrow> post" where
  "blank i now =
     \<lparr> doc_id = i, mediumId = [], title = [], slug = [], description = [], content = [],
       excerpt = [], author = None, tags = [], categories = [], mediumUrl = None,
       imageUrl = None, publishedAt = 0, readingTime = 5, status = Published,
       featured = False, views = 0, likes = 0, metaTitle = [], metaDescription = [],
       lastSyncedAt = now, syncStatus = Synced, createdAt = now, updatedAt = now \<rparr>"

definition applyDefaults :: "post \<Rightarrow> post" where
  "applyDefaults p = (if author p = None then p\<lparr>author := Some ''Mukesh Rawat''\<rparr> else p)"

subsection \<open>The \<open>save\<close> middleware\<close>

definition isSlugChar :: "char \<Rightarrow> bool" where
  "isSlugChar c =
     (let n = (of_char c :: nat) in (97 \<le> n \<and> n \<le> 122) \<or> (48 \<le> n \<and> n \<le> 57))"

function dashRuns :: "string \<Rightarrow> string" where
  "dashRuns [] = []"
| "dashRuns (c # cs) =
     (if isSlugChar c then c # dashRuns cs
      else CHR ''-'' # dashRuns (dropWhile (\<lambda>d. \<not> isSlugChar d) cs))"
  by pat_completeness auto
termination
proof (relation "measure length")
  fix c :: char and cs :: string
  have "length (dropWhile (\<lambda>d. \<not> isSlugChar d) cs) \<le> length cs"
    by (rule length_dropWhile_le)
  then show "(dropWhile (\<lambda>d. \<not> isSlugChar d) cs, c # cs) \<in> measure length" by simp
qed auto

definition stripEdgeDashes :: "string \<Rightarrow> string" where
  "stripEdgeDashes s =
     (let s1 = (case s of [] \<Rightarrow> [] | c # cs \<Rightarrow> if c = CHR ''-'' then cs else s)
      in if s1 \<noteq> [] \<and> last s1 = CHR ''-'' then butlast s1 else s1)"

definition slugify :: "string \<Rightarrow> string" where
  "slugify t = stripEdgeDashes (dashRuns (toLowerCase t))"

definition preSave :: "bool \<Rightarrow> post \<Rightarrow> post" where
  "preSave titleModified p =
     (let p1 = (if titleModified \<and> slug p = [] then p\<lparr>slug := slugify (title p)\<rparr> else p);
          p2 = (if metaTitle p1 = [] then p1\<lparr>metaTitle := substring0 60 (title p1)\<rparr> else p1);
          p3 = (if metaDescription p2 = []
                then p2\<lparr>metaDescription := substring0 160 (description p2)\<rparr> else p2)
      in if excerpt p3 = [] then p3\<lparr>excerpt := substring0 300 (description p3)\<rparr> else p3)"

text \<open>\<open>BlogPost.create(articleData)\<close>: build the document, validate it, run the middleware,
  insert it unless a unique index (\<open>mediumId\<close>, \<open>slug\<close>) rejects it.\<close>

definition create :: "(post \<Rightarrow> bool) \<Rightarrow> int \<Rightarrow> string \<Rightarrow> article \<Rightarrow> post list \<Rightarrow> error + post list" where
  "create V now m a db =
     (case castArticle m a of
        Inl e \<Rightarrow> Inl (Error ''ValidationError'' (err_message e))
      | Inr f \<Rightarrow>
         (let doc = applyDefaults (f (blank (newId db) now))
          in if \<not> V doc then Inl (Error ''ValidationError'' ''BlogPost validation failed'')
             else (let doc' = preSave True doc
                   in if (\<exists>p \<in> set db. mediumId p = mediumId doc' \<or> slug p = slug doc')
                      then Inl (Error ''MongoServerError'' ''E11000 duplicate key error'')
                      else Inr (db @ [doc']))))"

section \<open>The sync routine (\<open>syncArticles\<close>)\<close>

text \<open>The clock is read once for a run: \<open>now\<close> stands for every \<open>new Date()\<close> and
  \<open>Date.now()\<close> of the run. The operations on the store run one after the other, as the
  \<open>await\<close>s of the code order them, and no other request changes the store meanwhile.\<close>

definition needsUpdate :: "int \<Rightarrow> article \<Rightarrow> post \<Rightarrow> bool" where
  "needsUpdate now a existingArticle =
     ((case art_publishedAt a of None \<Rightarrow> False | Some t \<Rightarrow> t > publishedAt existingArticle)
      \<or> syncStatus existingArticle = Failed
      \<or> now - lastSyncedAt existingArticle > 24 * 60 * 60 * 1000)"

definition keepLocal :: "post \<Rightarrow> post \<Rightarrow> post" where
  "keepLocal existingArticle p =
     p\<lparr> views := views existingArticle, likes := likes existingArticle,
        featured := featured existingArticle \<rparr>"

text \<open>The body of the inner \<open>try\<close>: the new store and the increment of \<open>syncedCount\<close>, or
  the exception thrown. Each path makes at most one write, and a write that throws has
  written nothing.\<close>

definition syncAttempt :: "env \<Rightarrow> int \<Rightarrow> item \<Rightarrow> post list \<Rightarrow> error + (post list \<times> nat)" where
  "syncAttempt E now it db =
     (case parseMediumArticle (newDate E) now it of
        Inl e \<Rightarrow> Inl e
      | Inr a \<Rightarrow>
         (case art_mediumId a of
            None \<Rightarrow> Inr (db, 0)
          | Some m \<Rightarrow>
              if m = [] then Inr (db, 0)
              else (case findOne (\<lambda>p. mediumId p = m) db of
                      Some existingArticle \<Rightarrow>
                        if needsUpdate now a existingArticle then
                          (case castArticle m a of
                             Inl e \<Rightarrow> Inl e
                           | Inr f \<Rightarrow>
                               Inr (findByIdAndUpdate (doc_id existingArticle)
                                      (\<lambda>p. keepLocal existingArticle (f p)) now db, 1))
                        else Inr (db, 0)
                    | None \<Rightarrow>
                        (case create (validates E) now m a db of
                           Inl e \<Rightarrow> Inl e
                         | Inr db' \<Rightarrow> Inr (db', 1)))))"

text \<open>The \<open>catch\<close> of the inner \<open>try\<close>: parse again, mark the post with that identifier as
  failed; whatever this throws is logged only.\<close>

definition markFailed :: "env \<Rightarrow> int \<Rightarrow> item \<Rightarrow> post list \<Rightarrow> post list" where
  "markFailed E now it db =
     (case parseMediumArticle (newDate E) now it of
        Inl e \<Rightarrow> db
      | Inr a \<Rightarrow>
         (case art_mediumId a of
            None \<Rightarrow> db
          | Some m \<Rightarrow>
              if m = [] then db
              else updateFirst (\<lambda>p. mediumId p = m)
                     (\<lambda>p. p\<lparr>syncStatus := Failed, lastSyncedAt := now, updatedAt := now\<rparr>) db))"

text \<open>One round of the \<open>for\<close> loop: the store and the increments of \<open>syncedCount\<close> and
  \<open>errorCount\<close>, or the exception that leaves the round. The \<open>catch\<close> of the inner \<open>try\<close>
  first writes a log line that holds the text of \<open>item.title\<close>; when that text cannot be
  made, the exception leaves the round with the store as it was and \<open>errorCount\<close> not
  yet incremented.\<close>

definition syncItem :: "env \<Rightarrow> int \<Rightarrow> item \<Rightarrow> post list \<Rightarrow> error + post list \<times> nat \<times> nat" where
  "syncItem E now it db =
     (case syncAttempt E now it db of
        Inr (db', n) \<Rightarrow> Inr (db', n, 0)
      | Inl e \<Rightarrow>
         (case toText (item_title it) of
            Inl e' \<Rightarrow> Inl e'
          | Inr line \<Rightarrow> Inr (markFailed E now it db, 0, 1)))"

text \<open>The loop: the exception that ended it, if any, with the store and the counters
  reached.\<close>

fun syncLoop :: "env \<Rightarrow> int \<Rightarrow> item list \<Rightarrow> post list \<times> nat \<times> nat
    \<Rightarrow> error option \<times> post list \<times> nat \<times> nat" where
  "syncLoop E now [] st = (None, st)"
| "syncLoop E now (it # its) (db, syncedCount, errorCount) =
     (case syncItem E now it db of
        Inl e \<Rightarrow> (Some e, db, syncedCount, errorCount)
      | Inr (db', n, k) \<Rightarrow> syncLoop E now its (db', syncedCount + n, errorCount + k))"

record feed =
  items :: "item list option"

text \<open>\<open>fetchMediumArticles\<close>, given what \<open>parser.parseURL\<close> answered.\<close>

definition fetchMediumArticles :: "error + feed option \<Rightarrow> error + item list" where
  "fetchMediumArticles response =
     (case (case response of
              Inl e \<Rightarrow> Inl e
            | Inr None \<Rightarrow> Inl (Error ''Error'' ''Invalid RSS feed response'')
            | Inr (Some f) \<Rightarrow>
                (case items f of
                   None \<Rightarrow> Inl (Error ''Error'' ''Invalid RSS feed response'')
                 | Some xs \<Rightarrow> Inr xs)) of
        Inl e \<Rightarrow> Inl (Error ''Error'' (''Failed to fetch Medium articles: '' @ err_message e))
      | Inr xs \<Rightarrow> Inr xs)"

record sync_result =
  success :: bool
  message :: "string option"
  error :: "string option"
  syncedCount :: "nat option"
  errorCount :: "nat option"
  totalProcessed :: "nat option"

record service =
  syncInProgress :: bool

text \<open>The outer \<open>try\<close> block: what it returns or throws, with the store and the two
  counters at that point.\<close>

definition syncBody :: "env \<Rightarrow> int \<Rightarrow> error + feed option \<Rightarrow> post list
    \<Rightarrow> (error + sync_result) \<times> post list \<times> nat \<times> nat" where
  "syncBody E now response db =
     (case fetchMediumArticles response of
        Inl e \<Rightarrow> (Inl e, db, 0, 0)
      | Inr mediumArticles \<Rightarrow>
         (case syncLoop E now mediumArticles (db, 0, 0) of
            (Some e, db', synced, errors) \<Rightarrow> (Inl e, db', synced, errors)
          | (None, db', synced, errors) \<Rightarrow>
              (Inr \<lparr> success = True, message = None, error = None,
                     syncedCount = Some synced, errorCount = Some errors,
                     totalProcessed = Some (length mediumArticles) \<rparr>, db', synced, errors)))"

text \<open>\<open>syncArticles\<close>: the busy check, the outer \<open>try\<close> with its \<open>catch\<close> and \<open>finally\<close>.
  The first component is what the caller gets: \<open>Inl\<close> an exception, \<open>Inr\<close> a result.\<close>

definition syncArticles :: "env \<Rightarrow> int \<Rightarrow> error + feed option \<Rightarrow> service \<Rightarrow> post list
    \<Rightarrow> (error + sync_result) \<times> service \<times> post list" where
  "syncArticles E now response svc db =
     (if syncInProgress svc then
        (Inr \<lparr> success = False, message = Some ''Sync already in progress'', error = None,
               syncedCount = None, errorCount = None, totalProcessed = None \<rparr>, svc, db)
      else
        (case syncBody E now response db of
           (Inr r, db', synced, errors) \<Rightarrow> (Inr r, svc\<lparr>syncInProgress := False\<rparr>, db')
         | (Inl e, db', synced, errors) \<Rightarrow>
             (Inr \<lparr> success = False, message = None, error = Some (err_message e),
                    syncedCount = Some synced, errorCount = Some errors,
                    totalProcessed = None \<rparr>, svc\<lparr>syncInProgress := False\<rparr>, db')))"

section \<open>The blog controller\<close>

datatype payload =
    Posts (results: nat) (totalResults: nat) (totalPages: "int option") (currentPage: "int option")
          (posts: "post list") (featuredPosts: "post list option")
  | OnePost post "post list"
  | UpdatedPost post
  | Failure string
  | ValidationFailure

datatype reply = Reply (code: nat) (payload: payload)

subsection \<open>Queries of the list and detail views\<close>

fun insertBy :: "('a \<Rightarrow> 'a \<Rightarrow> bool) \<Rightarrow> 'a \<Rightarrow> 'a list \<Rightarrow> 'a list" where
  "insertBy before x [] = [x]"
| "insertBy before x (y # ys) = (if before x y then x # y # ys else y # insertBy before x ys)"

definition sortBy :: "('a \<Rightarrow> 'a \<Rightarrow> bool) \<Rightarrow> 'a list \<Rightarrow> 'a list" where
  "sortBy before xs = foldr (insertBy before) xs []"

definition newestFirst :: "post \<Rightarrow> post \<Rightarrow> bool" where
  "newestFirst a b = (publishedAt a \<ge> publishedAt b)"

text \<open>\<open>limit(n)\<close>: no limit for 0, the absolute value otherwise.\<close>

definition limitTo :: "int \<Rightarrow> 'a list \<Rightarrow> 'a list" where
  "limitTo n xs = (if n = 0 then xs else take (nat \<bar>n\<bar>) xs)"

text \<open>\<open>select('-content')\<close>.\<close>

definition hideContent :: "post \<Rightarrow> post" where
  "hideContent p = p\<lparr>content := []\<rparr>"

text \<open>\<open>BlogPost.getFeatured(limit)\<close>.\<close>

definition getFeatured :: "int \<Rightarrow> post list \<Rightarrow> post list" where
  "getFeatured n db =
     limitTo n (sortBy newestFirst (filter (\<lambda>p. status p = Published \<and> featured p) db))"

fun splitOn :: "char \<Rightarrow> string \<Rightarrow> string list" where
  "splitOn c [] = [[]]"
| "splitOn c (x # xs) =
     (if x = c then [] # splitOn c xs
      else (case splitOn c xs of [] \<Rightarrow> [[x]] | w # ws \<Rightarrow> (x # w) # ws))"

record list_query =
  q_page :: "string option"
  q_limit :: "string option"
  q_featured :: "string option"
  q_tags :: "string option"
  q_categories :: "string option"
  q_search :: "string option"
  q_sort :: "string option"

definition given :: "string option \<Rightarrow> bool" where
  "given v = (case v of None \<Rightarrow> False | Some s \<Rightarrow> s \<noteq> [])"

definition commaList :: "string option \<Rightarrow> string list" where
  "commaList v = (case v of None \<Rightarrow> [] | Some s \<Rightarrow> map trim (splitOn CHR '','' s))"

text \<open>The filter \<open>query\<close> that \<open>getBlogPosts\<close> builds, as a predicate on documents; \<open>rx\<close> is
  the compiled search pattern.\<close>

definition listFilter :: "list_query \<Rightarrow> (string \<Rightarrow> bool) \<Rightarrow> post \<Rightarrow> bool" where
  "listFilter q rx p =
     (status p = Published
      \<and> (q_featured q = Some ''true'' \<longrightarrow> featured p)
      \<and> (given (q_tags q) \<longrightarrow> (\<exists>t \<in> set (tags p). t \<in> set (commaList (q_tags q))))
      \<and> (given (q_categories q) \<longrightarrow>
            (\<exists>c \<in> set (categories p). c \<in> set (commaList (q_categories q))))
      \<and> (given (q_search q) \<longrightarrow>
            rx (title p) \<or> rx (description p) \<or> rx (content p) \<or> (\<exists>t \<in> set (tags p). rx t)))"

definition serverError :: "string \<Rightarrow> reply" where
  "serverError m = Reply 500 (Failure m)"

definition notFound :: reply where
  "notFound = Reply 404 (Failure ''Blog post not found'')"

text \<open>Rounding up \<open>total / limit\<close>; not a finite number when \<open>limit\<close> is 0.\<close>

definition ceilDiv :: "int \<Rightarrow> int \<Rightarrow> int option" where
  "ceilDiv a b = (if b = 0 then None else Some (- ((- a) div b)))"

text \<open>The answer of \<open>getBlogPosts\<close> once the search pattern is compiled and \<open>page\<close> and
  \<open>limit\<close> are numbers.\<close>

definition listReply :: "env \<Rightarrow> list_query \<Rightarrow> (string \<Rightarrow> bool) \<Rightarrow> int \<Rightarrow> int \<Rightarrow> post list \<Rightarrow> reply" where
  "listReply E q rx pg lm db =
     (let sort = (case q_sort q of None \<Rightarrow> ''-publishedAt'' | Some s \<Rightarrow> s);
          matching = filter (listFilter q rx) db;
          found = map hideContent
                    (limitTo lm (drop (nat ((pg - 1) * lm)) (sortBy (sortBefore E sort) matching)));
          total = length matching;
          onFirstPage = (case q_page q of None \<Rightarrow> True | Some s \<Rightarrow> looseEqualsOne E s);
          featuredPosts =
            (if \<not> given (q_featured q) \<and> \<not> given (q_tags q) \<and> \<not> given (q_categories q)
                \<and> \<not> given (q_search q) \<and> onFirstPage
             then getFeatured 3 db else [])
      in Reply 200
           (Posts (length found) total (ceilDiv (int total) lm) (Some pg) found
              (if length featuredPosts > 0 then Some featuredPosts else None)))"

text \<open>\<open>getBlogPosts\<close>. A pattern that does not compile, a \<open>page\<close> or \<open>limit\<close> that is not a
  number and a negative offset make the query throw, which the \<open>catch\<close> answers with 500.\<close>

definition getBlogPosts :: "env \<Rightarrow> list_query \<Rightarrow> post list \<Rightarrow> reply" where
  "getBlogPosts E q db =
     (let page = (case q_page q of None \<Rightarrow> Some 1 | Some s \<Rightarrow> parseInt E s);
          limit = (case q_limit q of None \<Rightarrow> Some 10 | Some s \<Rightarrow> parseInt E s);
          compiled = (if given (q_search q) then regex_i E (the (q_search q)) else Some (\<lambda>s. True))
      in case compiled of
           None \<Rightarrow> serverError ''Error fetching blog posts''
         | Some rx \<Rightarrow>
            (case (page, limit) of
               (Some pg, Some lm) \<Rightarrow>
                 if (pg - 1) * lm < 0 then serverError ''Error fetching blog posts''
                 else listReply E q rx pg lm db
             | _ \<Rightarrow> serverError ''Error fetching blog posts''))"

text \<open>\<open>doc.save()\<close> of a loaded document: validation, the middleware, then a write of the
  paths that changed to the document with that key.\<close>

definition savedDoc :: "int \<Rightarrow> post \<Rightarrow> post" where
  "savedDoc now doc = (preSave False doc)\<lparr>updatedAt := now\<rparr>"

definition writeBack :: "post \<Rightarrow> int \<Rightarrow> post list \<Rightarrow> post list" where
  "writeBack d now db =
     updateFirst (\<lambda>p. doc_id p = doc_id d)
       (\<lambda>p. p\<lparr> views := views d, metaTitle := metaTitle d,
                metaDescription := metaDescription d, excerpt := excerpt d,
                updatedAt := now \<rparr>) db"

definition save :: "env \<Rightarrow> int \<Rightarrow> post \<Rightarrow> post list \<Rightarrow> error + (post \<times> post list)" where
  "save E now doc db =
     (if \<not> validates E doc then Inl (Error ''ValidationError'' ''BlogPost validation failed'')
      else (let d = savedDoc now doc in Inr (d, writeBack d now db)))"

text \<open>The instance method \<open>incrementViews\<close>.\<close>

definition incrementViews :: "env \<Rightarrow> int \<Rightarrow> post \<Rightarrow> post list \<Rightarrow> error + (post \<times> post list)" where
  "incrementViews E now this db = save E now (this\<lparr>views := views this + 1\<rparr>) db"

definition relatedTo :: "post \<Rightarrow> post \<Rightarrow> bool" where
  "relatedTo post p =
     (doc_id p \<noteq> doc_id post \<and> status p = Published
      \<and> ((\<exists>t \<in> set (tags p). t \<in> set (tags post))
           \<or> (\<exists>c \<in> set (categories p). c \<in> set (categories post))))"

definition getBlogPost :: "env \<Rightarrow> int \<Rightarrow> string \<Rightarrow> post list \<Rightarrow> reply \<times> post list" where
  "getBlogPost E now slugParam db =
     (case findOne (\<lambda>p. slug p = slugParam \<and> status p = Published) db of
        None \<Rightarrow> (notFound, db)
      | Some post \<Rightarrow>
         (case incrementViews E now post db of
            Inl e \<Rightarrow>
              (if err_name e = ''CastError'' then notFound
               else serverError ''Error fetching blog post'', db)
          | Inr (post', db') \<Rightarrow>
              (Reply 200
                 (OnePost post'
                    (map hideContent (limitTo 3 (sortBy newestFirst (filter (relatedTo post') db'))))),
               db')))"

subsection \<open>The admin update\<close>

text \<open>A value of the request body: a boolean, a number, a string, an array, or any other
  value (\<open>null\<close>, an object).\<close>

datatype bodyval = BBool bool | BNumber int | BString string | BArray "bodyval list" | BOther

record update_body =
  body_featured :: "bodyval option"
  body_status :: "bodyval option"
  body_rest :: "(string \<times> bodyval) list"

text \<open>The rules \<open>blogUpdateValidation\<close> of the route: \<open>optional().isBoolean()\<close> and
  \<open>optional().isIn([...])\<close>, both on the text of the value. These are the two rules
  on a value that is not an array.\<close>

definition isBooleanText :: "bodyval \<Rightarrow> bool" where
  "isBooleanText v =
     (case v of
        BBool b \<Rightarrow> True
      | BNumber n \<Rightarrow> n = 0 \<or> n = 1
      | BString s \<Rightarrow> s \<in> set [''true'', ''false'', ''1'', ''0'']
      | BArray xs \<Rightarrow> False
      | BOther \<Rightarrow> False)"

definition statusOf :: "string \<Rightarrow> post_status option" where
  "statusOf s =
     (if s = ''published'' then Some Published
      else if s = ''draft'' then Some Draft
      else if s = ''archived'' then Some Archived
      else None)"

definition isStatusText :: "bodyval \<Rightarrow> bool" where
  "isStatusText v = (case v of BString s \<Rightarrow> statusOf s \<noteq> None | _ \<Rightarrow> False)"

text \<open>The validator applies a rule to an array member by member. The text of a member
  that is itself an array is the text of its first member, the empty text when it has
  none. Where an array is turned into a text as a whole, its members are joined by
  commas, and neither rule accepts a text with a comma or the empty text.\<close>

fun joinedOk :: "(bodyval \<Rightarrow> bool) \<Rightarrow> bodyval \<Rightarrow> bool" where
  "joinedOk rule (BArray []) = False"
| "joinedOk rule (BArray [x]) = joinedOk rule x"
| "joinedOk rule (BArray (x # y # ys)) = False"
| "joinedOk rule v = rule v"

definition memberOk :: "(bodyval \<Rightarrow> bool) \<Rightarrow> bodyval \<Rightarrow> bool" where
  "memberOk rule m =
     (case m of
        BArray xs \<Rightarrow> (case xs of [] \<Rightarrow> False | x # rest \<Rightarrow> joinedOk rule x)
      | _ \<Rightarrow> rule m)"

definition ruleOk :: "(bodyval \<Rightarrow> bool) \<Rightarrow> bodyval \<Rightarrow> bool" where
  "ruleOk rule v = (case v of BArray xs \<Rightarrow> list_all (memberOk rule) xs | _ \<Rightarrow> rule v)"

definition validationOk :: "update_body \<Rightarrow> bool" where
  "validationOk b =
     ((case body_featured b of None \<Rightarrow> True | Some v \<Rightarrow> ruleOk isBooleanText v)
      \<and> (case body_status b of None \<Rightarrow> True | Some v \<Rightarrow> ruleOk isStatusText v))"

definition castBoolean :: "bodyval \<Rightarrow> bool option" where
  "castBoolean v =
     (case v of
        BBool b \<Rightarrow> Some b
      | BNumber n \<Rightarrow> (if n = 1 then Some True else if n = 0 then Some False else None)
      | BString s \<Rightarrow>
          (if s \<in> set [''true'', ''1'', ''yes''] then Some True
           else if s \<in> set [''false'', ''0'', ''no''] then Some False else None)
      | BArray xs \<Rightarrow> None
      | BOther \<Rightarrow> None)"

definition castStatus :: "bodyval \<Rightarrow> error + post_status" where
  "castStatus v =
     (case v of
        BString s \<Rightarrow>
          (case statusOf s of
             None \<Rightarrow> Inl (Error ''ValidationError'' ''Validation failed'')
           | Some x \<Rightarrow> Inr x)
      | BArray xs \<Rightarrow> Inl (Error ''CastError'' ''Cast to string failed'')
      | _ \<Rightarrow> Inl (Error ''ValidationError'' ''Validation failed''))"

text \<open>\<open>updateData\<close> holds \<open>featured\<close> and \<open>status\<close> when the body has them, and nothing else.
  The write casts the two values, which fails for an array, and with \<open>runValidators\<close>
  checks the status against the schema's list.\<close>

definition updateData :: "update_body \<Rightarrow> error + (post \<Rightarrow> post)" where
  "updateData b =
     (case (case body_featured b of
              None \<Rightarrow> Inr (\<lambda>p. p)
            | Some v \<Rightarrow> (case castBoolean v of
                           None \<Rightarrow> Inl (Error ''CastError'' ''Cast to Boolean failed'')
                         | Some x \<Rightarrow> Inr (\<lambda>p. p\<lparr>featured := x\<rparr>))) of
        Inl e \<Rightarrow> Inl e
      | Inr f \<Rightarrow>
         (case body_status b of
            None \<Rightarrow> Inr f
          | Some v \<Rightarrow> (case castStatus v of
                         Inl e \<Rightarrow> Inl e
                       | Inr x \<Rightarrow> Inr (\<lambda>p. (f p)\<lparr>status := x\<rparr>))))"

definition updateBlogPost :: "env \<Rightarrow> int \<Rightarrow> string \<Rightarrow> update_body \<Rightarrow> post list \<Rightarrow> reply \<times> post list" where
  "updateBlogPost E now idParam b db =
     (if \<not> validationOk b then (Reply 400 ValidationFailure, db)
      else (case updateData b of
              Inl e \<Rightarrow>
                (if err_name e = ''CastError'' then notFound
                 else serverError ''Error updating blog post'', db)
            | Inr f \<Rightarrow>
               (case castObjectId E idParam of
                  None \<Rightarrow> (notFound, db)
                | Some i \<Rightarrow>
                   (let db' = findByIdAndUpdate i f now db
                    in case findOne (\<lambda>p. doc_id p = i) db' of
                         None \<Rightarrow> (notFound, db)
                       | Some post \<Rightarrow> (Reply 200 (UpdatedPost post), db')))))"

section \<open>Notions for stating the properties\<close>

text \<open>A post as an entry leaves it when it has just been written: the entry's date,
  status \<open>synced\<close>, synced at \<open>now\<close>.\<close>

definition freshFrom :: "int \<Rightarrow> article \<Rightarrow> post \<Rightarrow> bool" where
  "freshFrom now a p =
     (art_publishedAt a = Some (publishedAt p) \<and> syncStatus p = Synced \<and> lastSyncedAt p = now)"

text \<open>An entry refers to a post when its derived identifier is the \<open>mediumId\<close> of the
  post; the identifier does not depend on the clock.\<close>

definition refersTo :: "(jsval \<Rightarrow> int option) \<Rightarrow> item \<Rightarrow> post \<Rightarrow> bool" where
  "refersTo nd it p =
     (case parseMediumArticle nd 0 it of
        Inl e \<Rightarrow> False
      | Inr a \<Rightarrow> art_mediumId a = Some (mediumId p))"

text \<open>The store takes the values of an entry when the entry parses, its author and its
  link are strings or absent, and its date is valid; none of this depends on the clock.\<close>

definition storable :: "(jsval \<Rightarrow> int option) \<Rightarrow> item \<Rightarrow> bool" where
  "storable nd it =
     (case parseMediumArticle nd 0 it of
        Inl e \<Rightarrow> False
      | Inr a \<Rightarrow> \<not> isl (castString (art_author a)) \<and> \<not> isl (castString (art_mediumUrl a))
                 \<and> art_publishedAt a \<noteq> None)"

text \<open>An entry is settled in a store when no overwrite is due for it there: it does not
  parse, or it has no identifier, or no post has its identifier, or none of the three
  conditions holds for the post that has it.\<close>

definition settled :: "env \<Rightarrow> int \<Rightarrow> item \<Rightarrow> post list \<Rightarrow> bool" where
  "settled E now x db =
     (case parseMediumArticle (newDate E) now x of
        Inl e \<Rightarrow> True
      | Inr a \<Rightarrow>
         (case art_mediumId a of
            None \<Rightarrow> True
          | Some m \<Rightarrow>
             (case findOne (\<lambda>p. mediumId p = m) db of
                None \<Rightarrow> True
              | Some ex \<Rightarrow> m = [] \<or> \<not> needsUpdate now a ex)))"

text \<open>The entries that the loop reaches are those before the first one whose title has
  no text.\<close>

definition hasTitleText :: "item \<Rightarrow> bool" where
  "hasTitleText it = (\<not> isl (toText (item_title it)))"

text \<open>The words of a text: its maximal runs of characters that are not white space.\<close>

function wordsOf :: "string \<Rightarrow> string list" where
  "wordsOf s =
     (case dropWhile isSpace s of
        [] \<Rightarrow> []
      | c # cs \<Rightarrow> takeWhile (\<lambda>d. \<not> isSpace d) (c # cs) # wordsOf (dropWhile (\<lambda>d. \<not> isSpace d) cs))"
  by pat_completeness auto
termination
proof (relation "measure length")
  fix s :: string and c cs
  assume a: "dropWhile isSpace s = c # cs"
  have "length (dropWhile (\<lambda>d. \<not> isSpace d) cs) \<le> length cs"
    by (rule length_dropWhile_le)
  moreover have "length (c # cs) \<le> length s"
    by (metis a length_dropWhile_le)
  ultimately show "(dropWhile (\<lambda>d. \<not> isSpace d) cs, s) \<in> measure length" by simp
qed auto

declare wordsOf.simps [simp del]

section \<open>Sample data\<close>

definition emptyItem :: item where
  "emptyItem =
     \<lparr> item_content = JUndefined, item_content_encoded = JUndefined,
       item_contentSnippet = JUndefined, item_title = JUndefined, item_creator = JUndefined,
       item_dc_creator = JUndefined, item_link = JUndefined, item_guid = JUndefined,
       item_pubDate = JUndefined, item_isoDate = JUndefined, item_categories = JUndefined \<rparr>"

text \<open>A body of \<open>n + 1\<close> words, one space between two words.\<close>

definition wordsText :: "nat \<Rightarrow> string" where
  "wordsText n = concat (replicate n ''word '') @ ''word''"

text \<open>An environment for the examples: two dates, decimal numerals, a pattern without
  special characters found as it is, newest first for every sort specification.\<close>

definition sampleDate :: "jsval \<Rightarrow> int option" where
  "sampleDate v =
     (if v = JString ''2024-01-15T00:00:00.000Z'' then Some 1705276800000
      else if v = JString ''2024-01-20T00:00:00.000Z'' then Some 1705708800000
      else None)"

definition isDigit :: "char \<Rightarrow> bool" where
  "isDigit c = (let n = (of_char c :: nat) in 48 \<le> n \<and> n \<le> 57)"

definition decimal :: "string \<Rightarrow> nat option" where
  "decimal s =
     (if s \<noteq> [] \<and> list_all isDigit s
      then Some (foldl (\<lambda>n c. 10 * n + (of_char c - 48)) 0 s) else None)"

fun isPrefixOf :: "string \<Rightarrow> string \<Rightarrow> bool" where
  "isPrefixOf [] s = True"
| "isPrefixOf (c # cs) [] = False"
| "isPrefixOf (c # cs) (d # ds) = (c = d \<and> isPrefixOf cs ds)"

fun occursIn :: "string \<Rightarrow> string \<Rightarrow> bool" where
  "occursIn pat [] = (pat = [])"
| "occursIn pat (c # cs) = (isPrefixOf pat (c # cs) \<or> occursIn pat cs)"

definition sampleEnv :: env where
  "sampleEnv =
     \<lparr> newDate = sampleDate,
       validates = blogPostSchema_valid,
       parseInt = (\<lambda>s. map_option int (decimal s)),
       regex_i = (\<lambda>pat. Some (\<lambda>s. occursIn (toLowerCase pat) (toLowerCase s))),
       sortBefore = (\<lambda>spec. newestFirst),
       looseEqualsOne = (\<lambda>s. s = ''1''),
       castObjectId = decimal \<rparr>"

definition samplePost :: post where
  "samplePost =
     \<lparr> doc_id = 1, mediumId = ''abc123'',
       title = ''Getting Started with React and TypeScript'',
       slug = ''getting-started-with-react-and-typescript'',
       description = ''A comprehensive guide to building modern web applications.'',
       content = ''<p>This is a sample blog post content about React and TypeScript...</p>'',
       excerpt = ''A comprehensive guide.'',
       author = Some ''Mukesh Rawat'',
       tags = [''react'', ''typescript''], categories = [''frontend''],
       mediumUrl = Some ''https://medium.com/p/abc123'',
       imageUrl = None, publishedAt = 1705276800000, readingTime = 8,
       status = Published, featured = True, views = 7, likes = 3,
       metaTitle = [], metaDescription = [],
       lastSyncedAt = 1705276800000, syncStatus = Synced,
       createdAt = 1705276800000, updatedAt = 1705276800000 \<rparr>"

definition draftPost :: post where
  "draftPost =
     samplePost\<lparr> doc_id := 2, mediumId := ''def456'', title := ''Notes in progress'',
                 slug := ''notes-in-progress'', status := Draft, featured := False,
                 views := 0, likes := 0 \<rparr>"

text \<open>A feed entry for the post \<open>abc123\<close>, published five days after the stored date.\<close>

definition sampleEntry :: item where
  "sampleEntry =
     emptyItem\<lparr> item_content := JString ''<p>Hello there</p>'',
                 item_contentSnippet := JString ''Hello there'',
                 item_title := JString ''Hello World'',
                 item_creator := JString ''Mukesh Rawat'',
                 item_link := JString ''https://medium.com/@yourusername/hello-world-abc123'',
                 item_guid := JString ''https://medium.com/p/abc123'',
                 item_pubDate := JString ''2024-01-20T00:00:00.000Z'',
                 item_categories := JArray [JString ''React'', JObject (Some ''[object Object]'')] \<rparr>"

text \<open>The entry \<open>sampleEntry\<close> with a body that is a paragraph of 400 words followed by a
  line break, and with a body and a snippet of 501 characters.\<close>

definition entry400 :: item where
  "entry400 =
     sampleEntry\<lparr> item_content := JString (''<p>'' @ wordsText 399 @ ''</p>'' @ [CHR 0x0A]),
                   item_contentSnippet := JString (wordsText 399) \<rparr>"

definition entryLongSnippet :: item where
  "entryLongSnippet =
     sampleEntry\<lparr> item_content := JString (''<p>'' @ replicate 501 CHR ''a'' @ ''</p>''),
                   item_contentSnippet := JString (replicate 501 CHR ''a'') \<rparr>"

text \<open>The same entry without a date.\<close>

definition entryNoDate :: item where
  "entryNoDate = sampleEntry\<lparr> item_pubDate := JUndefined \<rparr>"

text \<open>An entry from which no identifier can be derived.\<close>

definition entryNoId :: item where
  "entryNoId = sampleEntry\<lparr> item_link := JUndefined, item_guid := JUndefined \<rparr>"

text \<open>What parsing \<open>sampleEntry\<close> at time \<open>now\<close> gives.\<close>

definition sampleArticle :: "int \<Rightarrow> article" where
  "sampleArticle now =
     \<lparr> art_mediumId = Some ''abc123'', art_title = ''Hello World'',
       art_description = ''Hello there'', art_content = ''<p>Hello there</p>'',
       art_excerpt = ''Hello there'', art_author = JString ''Mukesh Rawat'',
       art_mediumUrl = JString ''https://medium.com/@yourusername/hello-world-abc123'',
       art_imageUrl = None, art_publishedAt = Some 1705708800000, art_readingTime = 1,
       art_tags = [''react''], art_categories = [''react''], art_lastSyncedAt = now,
       art_syncStatus = Synced \<rparr>"

text \<open>The stored post \<open>abc123\<close> with a failed last sync.\<close>

definition failedPost :: post where
  "failedPost = samplePost\<lparr> syncStatus := Failed \<rparr>"

text \<open>An entry for a post that is not stored yet; entries whose title is an object, one
  with the usual conversion to a string and one without any; an entry without identifier
  whose title is such an object; an entry whose author is an object.\<close>

definition entryNew :: item where
  "entryNew =
     sampleEntry\<lparr> item_title := JString ''Second Post'',
                   item_link := JString ''https://medium.com/p/fff999'',
                   item_guid := JString ''https://medium.com/p/fff999'' \<rparr>"

definition entryBadTitle :: item where
  "entryBadTitle = sampleEntry\<lparr> item_title := JObject (Some ''[object Object]'') \<rparr>"

definition entryBareTitle :: item where
  "entryBareTitle = sampleEntry\<lparr> item_title := JObject None \<rparr>"

definition entryNoIdBareTitle :: item where
  "entryNoIdBareTitle = entryNoId\<lparr> item_title := JObject None \<rparr>"

definition entryBadAuthor :: item where
  "entryBadAuthor = sampleEntry\<lparr> item_creator := JObject (Some ''[object Object]'') \<rparr>"

definition idle :: service where
  "idle = \<lparr> syncInProgress = False \<rparr>"

text \<open>What parsing \<open>entryNew\<close> gives.\<close>

definition articleNew :: "int \<Rightarrow> article" where
  "articleNew now =
     (sampleArticle now)\<lparr> art_mediumId := Some ''fff999'', art_title := ''Second Post'',
                           art_mediumUrl := JString ''https://medium.com/p/fff999'' \<rparr>"

text \<open>Requests for the examples: a list request without parameters, and an update body
  that sets \<open>featured\<close> and also carries a title.\<close>

definition noQuery :: list_query where
  "noQuery =
     \<lparr> q_page = None, q_limit = None, q_featured = None, q_tags = None, q_categories = None,
       q_search = None, q_sort = None \<rparr>"

definition sampleBody :: update_body where
  "sampleBody =
     \<lparr> body_featured = Some (BBool False), body_status = None,
       body_rest = [(''title'', BString ''Changed''), (''views'', BNumber 1000)] \<rparr>"

text \<open>An entry for the post \<open>abc123\<close> carrying the date the post is stored with, and
  answers of the feed parser.\<close>

definition entrySameDate :: item where
  "entrySameDate = sampleEntry\<lparr> item_pubDate := JString ''2024-01-15T00:00:00.000Z'' \<rparr>"

definition feedSameDate :: "error + feed option" where
  "feedSameDate = Inr (Some \<lparr> items = Some [entrySameDate] \<rparr>)"

definition feedTwo :: "error + feed option" where
  "feedTwo = Inr (Some \<lparr> items = Some [entryNew, sampleEntry] \<rparr>)"

definition feedBadAuthor :: "error + feed option" where
  "feedBadAuthor = Inr (Some \<lparr> items = Some [entrySameDate, entryBadAuthor] \<rparr>)"

definition feedBareTitle :: "error + feed option" where
  "feedBareTitle = Inr (Some \<lparr> items = Some [entryBareTitle, sampleEntry] \<rparr>)"

definition feedNoIdBareTitle :: "error + feed option" where
  "feedNoIdBareTitle = Inr (Some \<lparr> items = Some [entryNoIdBareTitle, sampleEntry] \<rparr>)"

definition feedOne :: "error + feed option" where
  "feedOne = Inr (Some \<lparr> items = Some [sampleEntry] \<rparr>)"

text \<open>The post \<open>abc123\<close> once \<open>sampleEntry\<close> has been written to it at time \<open>now\<close>.\<close>

definition syncedPost :: "int \<Rightarrow> post" where
  "syncedPost now =
     samplePost\<lparr> title := ''Hello World'', description := ''Hello there'',
                  content := ''<p>Hello there</p>'', excerpt := ''Hello there'',
                  tags := [''react''], categories := [''react''],
                  mediumUrl := Some ''https://medium.com/@yourusername/hello-world-abc123'',
                  publishedAt := 1705708800000, readingTime := 1, lastSyncedAt := now,
                  updatedAt := now \<rparr>"

section \<open>Properties of the normalised record\<close>

lemma stripTags_plain: "CHR ''<'' \<notin> set s \<Longrightarrow> stripTags (s @ t) = s @ stripTags t"
  by (induction s) auto

lemma isSpace_word [simp]:
  "\<not> isSpace CHR ''w''" "\<not> isSpace CHR ''o''" "\<not> isSpace CHR ''r''" "\<not> isSpace CHR ''d''"
  "isSpace CHR 0x20" "isSpace CHR 0x0A"
  by (simp_all add: isSpace_def)

lemma split_ws_word: "split_ws (''word '' @ CHR ''w'' # s) = ''word'' # split_ws (CHR ''w'' # s)"
  by (subst split_ws.simps) simp

lemma wordsOf_space: "isSpace c \<Longrightarrow> wordsOf (c # s) = wordsOf s"
  by (simp add: wordsOf.simps [of "c # s"] wordsOf.simps [of s])

lemma wordsOf_word: "wordsOf (''word '' @ s) = ''word'' # wordsOf s"
  by (subst wordsOf.simps) (simp add: wordsOf_space)

lemma wordsText_unfold: "wordsText (Suc n) = ''word '' @ wordsText n"
  by (simp add: wordsText_def)

lemma wordsText_hd: "\<exists>r. wordsText n = CHR ''w'' # r"
  by (cases n) (simp_all add: wordsText_def)

lemma split_ws_wordsText_break: "length (split_ws (wordsText n @ [CHR 0x0A])) = n + 2"
proof (induction n)
  case 0
  show ?case
    by (simp add: wordsText_def, subst split_ws.simps, simp, subst split_ws.simps, simp)
next
  case (Suc n)
  obtain r where r: "wordsText n = CHR ''w'' # r" using wordsText_hd by blast
  have "split_ws (wordsText (Suc n) @ [CHR 0x0A]) = ''word'' # split_ws (wordsText n @ [CHR 0x0A])"
    unfolding wordsText_unfold using split_ws_word [of "r @ [CHR 0x0A]"] r by simp
  then show ?case using Suc by simp
qed

lemma wordsOf_wordsText_break: "length (wordsOf (wordsText n @ [CHR 0x0A])) = n + 1"
proof (induction n)
  case 0
  show ?case
    by (simp add: wordsText_def, subst wordsOf.simps, simp, subst wordsOf.simps, simp)
next
  case (Suc n)
  have "wordsOf (wordsText (Suc n) @ [CHR 0x0A]) = ''word'' # wordsOf (wordsText n @ [CHR 0x0A])"
    unfolding wordsText_unfold using wordsOf_word [of "wordsText n @ [CHR 0x0A]"] by simp
  then show ?case using Suc by simp
qed

lemma wordsText_no_tag: "CHR ''<'' \<notin> set (wordsText n)"
  by (induction n) (simp_all add: wordsText_def)

lemma stripTags_paragraph:
  "stripTags (''<p>'' @ wordsText n @ ''</p>'' @ [CHR 0x0A]) = wordsText n @ [CHR 0x0A]"
proof -
  have "stripTags (''<p>'' @ wordsText n @ ''</p>'' @ [CHR 0x0A])
      = stripTags (wordsText n @ ''</p>'' @ [CHR 0x0A])"
    by simp
  also have "\<dots> = wordsText n @ stripTags (''</p>'' @ [CHR 0x0A])"
    by (rule stripTags_plain [OF wordsText_no_tag])
  also have "\<dots> = wordsText n @ [CHR 0x0A]" by simp
  finally show ?thesis .
qed

lemma sample_identifier:
  "generateMediumId (JString ''https://medium.com/p/abc123'') = Inr (Some ''abc123'')"
  by code_simp

lemma parse_entry400:
  "\<exists>a. parseMediumArticle nd now entry400 = Inr a
     \<and> art_content a = ''<p>'' @ wordsText 399 @ ''</p>'' @ [CHR 0x0A]
     \<and> art_readingTime a
         = ceilDiv200 (wordCount (stripTags (''<p>'' @ wordsText 399 @ ''</p>'' @ [CHR 0x0A])))"
  by (simp add: parseMediumArticle_def parseBody_def entry400_def sampleEntry_def emptyItem_def
      js_or_def sample_identifier optTrim_def Let_def del: stripTags.simps)

text \<open>
  Claim C6 (reading time is the word count over 200, rounded up; 400 words give 2).
  The code counts the pieces of \<open>split(/\s+/)\<close>, and white space at an end of the text
  adds an empty piece. For the entry \<open>entry400\<close>, whose body is a paragraph of 400 words
  followed by a line break, the text without markup has 400 words and the reading time
  is 3.
\<close>

theorem reading_time_400_words_trailing_break:
  "\<exists>a. parseMediumArticle nd now entry400 = Inr a
     \<and> length (wordsOf (stripTags (art_content a))) = 400
     \<and> art_readingTime a = 3"
proof -
  obtain a where a: "parseMediumArticle nd now entry400 = Inr a"
    "art_content a = ''<p>'' @ wordsText 399 @ ''</p>'' @ [CHR 0x0A]"
    "art_readingTime a
       = ceilDiv200 (wordCount (stripTags (''<p>'' @ wordsText 399 @ ''</p>'' @ [CHR 0x0A])))"
    using parse_entry400 by blast
  have "length (wordsOf (stripTags (art_content a))) = 400"
    unfolding a(2) stripTags_paragraph wordsOf_wordsText_break by simp
  moreover have "art_readingTime a = 3"
    unfolding a(3) stripTags_paragraph wordCount_def split_ws_wordsText_break ceilDiv200_def
    by simp
  ultimately show ?thesis using a(1) by blast
qed

text \<open>Where the count is right: for a text that is not empty and neither starts nor ends
  with white space, the number of pieces is the number of words, so that a body of
  exactly 400 words gets the reading time 2.\<close>

lemma wordsOf_skip: "wordsOf (dropWhile isSpace s) = wordsOf s"
  by (simp add: wordsOf.simps [of "dropWhile isSpace s"] wordsOf.simps [of s])

lemma wordCount_clean:
  "s \<noteq> [] \<Longrightarrow> \<not> isSpace (hd s) \<Longrightarrow> \<not> isSpace (last s) \<Longrightarrow> wordCount s = length (wordsOf s)"
proof (induction "length s" arbitrary: s rule: less_induct)
  case less
  let ?w = "takeWhile (\<lambda>c. \<not> isSpace c) s"
  let ?tl = "dropWhile (\<lambda>c. \<not> isSpace c) s"
  obtain c cs where s: "s = c # cs" using less.prems(1) by (cases s) auto
  have c: "\<not> isSpace c" using less.prems(2) s by simp
  have lead: "dropWhile isSpace s = c # cs" using s c by simp
  have tail: "dropWhile (\<lambda>d. \<not> isSpace d) cs = ?tl" using s c by simp
  have w: "takeWhile (\<lambda>d. \<not> isSpace d) (c # cs) = ?w" using s by simp
  have wo: "wordsOf s = ?w # wordsOf ?tl"
    by (subst wordsOf.simps) (simp add: lead tail w del: takeWhile.simps dropWhile.simps)
  show ?case
  proof (cases ?tl)
    case Nil
    then have "split_ws s = [s]" by (subst split_ws.simps) (simp only: list.case)
    moreover have "wordsOf [] = []" by (simp add: wordsOf.simps [of "[]"])
    then have "wordsOf ?tl = []" by (simp only: Nil)
    ultimately show ?thesis using wo by (simp add: wordCount_def)
  next
    case (Cons sp rest)
    let ?nx = "dropWhile isSpace rest"
    have sp: "isSpace sp" using hd_dropWhile [of "\<lambda>c. \<not> isSpace c" s] Cons by simp
    have app: "s = ?w @ sp # rest" using Cons takeWhile_dropWhile_id [of "\<lambda>c. \<not> isSpace c" s] by simp
    have len: "length s = length ?w + Suc (length rest)"
      using arg_cong [OF app, of length] by simp
    have lst: "last s = last (sp # rest)"
      using arg_cong [OF app, of last] by simp
    have lr: "length ?nx < length s"
      using length_dropWhile_le [of isSpace rest] len by simp
    have rest: "rest \<noteq> []"
      using lst sp less.prems(3) by auto
    then have last_rest: "last rest = last s"
      using lst by simp
    have rne: "?nx \<noteq> []"
    proof
      assume "?nx = []"
      then have "\<forall>x \<in> set rest. isSpace x" by (simp add: dropWhile_eq_Nil_conv)
      with rest have "isSpace (last rest)" by simp
      with last_rest less.prems(3) show False by simp
    qed
    have hd_r: "\<not> isSpace (hd ?nx)" using hd_dropWhile [OF rne] .
    have "rest = takeWhile isSpace rest @ ?nx" by simp
    then have "last rest = last ?nx" using rne by (metis last_appendR)
    then have last_r: "\<not> isSpace (last ?nx)" using last_rest less.prems(3) by simp
    have ih: "wordCount ?nx = length (wordsOf ?nx)"
      by (rule less.hyps [OF lr rne hd_r last_r])
    have sw: "split_ws s = ?w # split_ws ?nx"
      by (subst split_ws.simps) (simp only: Cons list.case)
    have "wordsOf (sp # rest) = wordsOf ?nx"
      using wordsOf_skip [of "sp # rest"] sp by simp
    then have r0r: "wordsOf ?tl = wordsOf ?nx" by (simp only: Cons)
    have "length (split_ws s) = length (?w # split_ws ?nx)" by (rule arg_cong [OF sw])
    then have a: "length (split_ws s) = Suc (length (split_ws ?nx))" by simp
    have "length (wordsOf s) = length (?w # wordsOf ?tl)" by (rule arg_cong [OF wo])
    then have b: "length (wordsOf s) = Suc (length (wordsOf ?nx))" by (simp only: r0r) simp
    from ih have "length (split_ws ?nx) = length (wordsOf ?nx)" by (simp only: wordCount_def)
    with a b show ?thesis by (simp only: wordCount_def)
  qed
qed

lemma reading_time_clean_400:
  assumes "s \<noteq> []" "\<not> isSpace (hd s)" "\<not> isSpace (last s)" "length (wordsOf s) = 400"
  shows "ceilDiv200 (wordCount s) = 2"
  using wordCount_clean [OF assms(1-3)] assms(4) by (simp add: ceilDiv200_def)

lemma trim_no_space: "trim (replicate n CHR ''a'') = replicate n CHR ''a''"
  by (simp add: trim_def isSpace_def)

text \<open>
  Claim C9 (description at most 500 characters, excerpt at most 300, at most 10 tags and
  5 categories). The description is the trimmed snippet of the entry when there is one,
  and only the fallback taken from the text is cut at 500: for the entry
  \<open>entryLongSnippet\<close>, whose snippet has 501 characters, the description has 501.
\<close>

theorem description_exceeds_budget:
  "\<exists>a. parseMediumArticle nd now entryLongSnippet = Inr a \<and> length (art_description a) = 501"
  by (simp add: parseMediumArticle_def parseBody_def entryLongSnippet_def sampleEntry_def
      emptyItem_def js_or_def sample_identifier optTrim_def trim_no_space orElse_def Let_def
      del: stripTags.simps)

text \<open>The other three budgets hold for every entry, and so does the budget of the
  description when the entry has no snippet.\<close>

lemma parse_excerpt_tags_categories:
  "parseMediumArticle nd now it = Inr a \<Longrightarrow>
     length (art_excerpt a) \<le> 300 \<and> length (art_tags a) \<le> 10 \<and> length (art_categories a) \<le> 5"
  by (auto simp: parseMediumArticle_def parseBody_def Let_def substring0_def extractTags_def
      extractCategories_def split: sum.splits jsval.splits)

lemma parse_description_without_snippet:
  "parseMediumArticle nd now it = Inr a \<Longrightarrow> \<not> truthy (item_contentSnippet it) \<Longrightarrow>
     length (art_description a) \<le> 500"
  by (auto simp: parseMediumArticle_def parseBody_def Let_def substring0_def optTrim_def
      orElse_def trim_def split: sum.splits jsval.splits)

section \<open>Properties of the store and of one round of the loop\<close>

lemma findOne_SomeD: "findOne P db = Some p \<Longrightarrow> p \<in> set db \<and> P p"
  by (auto simp: findOne_def find_Some_iff)

lemma findOne_None_iff: "findOne P db = None \<longleftrightarrow> (\<forall>p \<in> set db. \<not> P p)"
  by (auto simp: findOne_def find_None_iff)

lemma length_updateFirst [simp]: "length (updateFirst P f db) = length db"
  by (induction db) auto

lemma updateFirst_none: "\<forall>p \<in> set db. \<not> P p \<Longrightarrow> updateFirst P f db = db"
  by (induction db) auto

lemma updateFirst_by_id:
  "distinct (map doc_id db) \<Longrightarrow>
     updateFirst (\<lambda>p. doc_id p = i) f db = map (\<lambda>p. if doc_id p = i then f p else p) db"
proof (induction db)
  case Nil
  show ?case by simp
next
  case (Cons q db)
  show ?case
  proof (cases "doc_id q = i")
    case True
    then have "\<forall>p \<in> set db. doc_id p \<noteq> i" using Cons.prems by (auto simp: image_iff)
    then have "map (\<lambda>p. if doc_id p = i then f p else p) db = db"
      by (simp add: map_idI)
    with True show ?thesis by simp
  next
    case False
    with Cons show ?thesis by simp
  qed
qed

lemma updateFirst_map_key:
  "(\<And>p. P p \<Longrightarrow> k (f p) = k p) \<Longrightarrow> map k (updateFirst P f db) = map k db"
  by (induction db) auto


lemma same_doc:
  "distinct (map doc_id db) \<Longrightarrow> p \<in> set db \<Longrightarrow> q \<in> set db \<Longrightarrow> doc_id p = doc_id q \<Longrightarrow> p = q"
  by (meson distinct_map inj_onD)

lemma keepLocal_setArticle [simp]: "keepLocal ex (setArticle m a au url d ex) = setArticle m a au url d ex"
  by (simp add: keepLocal_def setArticle_def)

lemma syncAttempt_existing:
  assumes "parseMediumArticle (newDate E) now it = Inr a" "art_mediumId a = Some m" "m \<noteq> []"
    "findOne (\<lambda>p. mediumId p = m) db = Some ex"
  shows "syncAttempt E now it db =
     (if needsUpdate now a ex then
        (case castArticle m a of
           Inl e \<Rightarrow> Inl e
         | Inr f \<Rightarrow> Inr (findByIdAndUpdate (doc_id ex) (\<lambda>p. keepLocal ex (f p)) now db, 1))
      else Inr (db, 0))"
  using assms by (simp add: syncAttempt_def)

lemma update_existing:
  assumes d: "distinct (map doc_id db)" and ex: "ex \<in> set db"
  shows "findByIdAndUpdate (doc_id ex) f now db
       = map (\<lambda>p. if doc_id p = doc_id ex then (f ex)\<lparr>updatedAt := now\<rparr> else p) db"
proof -
  have "findByIdAndUpdate (doc_id ex) f now db
      = map (\<lambda>p. if doc_id p = doc_id ex then (f p)\<lparr>updatedAt := now\<rparr> else p) db"
    unfolding findByIdAndUpdate_def by (rule updateFirst_by_id [OF d])
  also have "\<dots> = map (\<lambda>p. if doc_id p = doc_id ex then (f ex)\<lparr>updatedAt := now\<rparr> else p) db"
    by (rule map_cong [OF refl]) (use same_doc [OF d _ ex] in auto)
  finally show ?thesis .
qed

lemma updateFirst_found:
  assumes "distinct (map doc_id db)" "findOne P db = Some ex"
  shows "updateFirst P g db = map (\<lambda>p. if doc_id p = doc_id ex then g ex else p) db"
  using assms
proof (induction db)
  case Nil
  then show ?case by (simp add: findOne_def)
next
  case (Cons h db)
  show ?case
  proof (cases "P h")
    case True
    with Cons.prems(2) have h: "h = ex" by (simp add: findOne_def)
    have "\<forall>p \<in> set db. doc_id p \<noteq> doc_id ex" using Cons.prems(1) h by (auto simp: image_iff)
    then have "map (\<lambda>p. if doc_id p = doc_id ex then g ex else p) db = db"
      by (simp add: map_idI)
    with True h show ?thesis by simp
  next
    case False
    with Cons.prems(2) have f: "findOne P db = Some ex" by (simp add: findOne_def)
    then have "ex \<in> set db" using findOne_SomeD by blast
    then have "doc_id h \<noteq> doc_id ex" using Cons.prems(1) by (auto simp: image_iff)
    with False Cons.IH [OF _ f] Cons.prems(1) show ?thesis by simp
  qed
qed

lemma setArticle_keys [simp]:
  "doc_id (setArticle m a au url d p) = doc_id p"
  "mediumId (setArticle m a au url d p) = m"
  "slug (setArticle m a au url d p) = slug p"
  by (simp_all add: setArticle_def)

lemma keepLocal_keys [simp]:
  "doc_id (keepLocal ex p) = doc_id p" "mediumId (keepLocal ex p) = mediumId p"
  by (simp_all add: keepLocal_def)

lemma applyDefaults_keys [simp]:
  "doc_id (applyDefaults p) = doc_id p" "mediumId (applyDefaults p) = mediumId p"
  "slug (applyDefaults p) = slug p"
  by (simp_all add: applyDefaults_def)

lemma preSave_keys [simp]:
  "doc_id (preSave b p) = doc_id p" "mediumId (preSave b p) = mediumId p"
  by (simp_all add: preSave_def Let_def)

lemma castArticle_keys:
  "castArticle m a = Inr f \<Longrightarrow> doc_id (f p) = doc_id p \<and> mediumId (f p) = m"
  by (auto simp: castArticle_def split: sum.splits)

lemma castArticle_InrD:
  "castArticle m a = Inr f \<Longrightarrow> \<exists>au url d. art_publishedAt a = Some d \<and> f = setArticle m a au url d"
  by (auto simp: castArticle_def castDate_def split: sum.splits option.splits)

lemma create_InrD:
  assumes "create V now m a db = Inr db'"
  shows "\<exists>doc. db' = db @ [doc] \<and> doc_id doc = newId db \<and> mediumId doc = m
           \<and> m \<notin> set (map mediumId db)"
proof -
  from assms obtain f where f: "castArticle m a = Inr f"
    by (auto simp: create_def split: sum.splits)
  let ?doc = "preSave True (applyDefaults (f (blank (newId db) now)))"
  have k: "doc_id ?doc = newId db" "mediumId ?doc = m"
    using castArticle_keys [OF f, of "blank (newId db) now"] by (simp_all add: blank_def)
  from assms f have "db' = db @ [?doc]" "\<not> (\<exists>p \<in> set db. mediumId p = mediumId ?doc \<or> slug p = slug ?doc)"
    by (auto simp: create_def Let_def split: if_splits)
  with k show ?thesis by auto
qed

text \<open>The schema requires a slug, \<open>articleData\<close> has none, and the validation comes before
  the middleware that would derive one: \<open>create\<close> rejects every article.\<close>

lemma create_needs_slug:
  assumes "\<And>p. V p \<Longrightarrow> slug p \<noteq> []"
  shows "\<exists>e. create V now m a db = Inl e"
proof (cases "castArticle m a")
  case (Inl e)
  then show ?thesis by (simp add: create_def)
next
  case (Inr f)
  from castArticle_InrD [OF Inr] obtain au url d where f: "f = setArticle m a au url d" by blast
  have "slug (applyDefaults (f (blank (newId db) now))) = []"
    unfolding f by (simp add: blank_def)
  with assms have "\<not> V (applyDefaults (f (blank (newId db) now)))" by blast
  with Inr show ?thesis by (simp add: create_def Let_def)
qed

lemma create_rejected: "\<exists>e. create blogPostSchema_valid now m a db = Inl e"
  by (rule create_needs_slug) (simp add: blogPostSchema_valid_def)

text \<open>When the log line of the \<open>catch\<close> throws: exactly for the entries whose title has
  no text, and these do not parse.\<close>

lemma optTrim_text: "optTrim v = Inr t \<Longrightarrow> \<exists>s. toText v = Inr s"
  by (cases v) (simp_all add: optTrim_def)

lemma parse_title_text:
  "parseMediumArticle nd now it = Inr a \<Longrightarrow> \<exists>s. toText (item_title it) = Inr s"
  by (auto simp: parseMediumArticle_def parseBody_def Let_def optTrim_text
      split: sum.splits jsval.splits)

lemma syncItem_InrD:
  "syncItem E now it db = Inr (db', n, k) \<Longrightarrow>
     (syncAttempt E now it db = Inr (db', n) \<and> k = 0)
     \<or> ((\<exists>e. syncAttempt E now it db = Inl e) \<and> db' = markFailed E now it db \<and> n = 0 \<and> k = 1)"
  by (auto simp: syncItem_def split: sum.splits)

lemma syncItem_throws_iff:
  "syncItem E now it db = Inl e \<longleftrightarrow> toText (item_title it) = Inl e"
proof (cases "parseMediumArticle (newDate E) now it")
  case (Inl x)
  then have "syncAttempt E now it db = Inl x" by (simp add: syncAttempt_def)
  then show ?thesis by (simp add: syncItem_def split: sum.splits)
next
  case (Inr a)
  from parse_title_text [OF Inr] obtain s where s: "toText (item_title it) = Inr s" by blast
  then show ?thesis by (simp add: syncItem_def split: sum.splits prod.splits)
qed

text \<open>What one round of the loop can do to the keys of the store.\<close>

lemma markFailed_keys:
  "map doc_id (markFailed E now it db) = map doc_id db
   \<and> map mediumId (markFailed E now it db) = map mediumId db"
  by (auto simp: markFailed_def updateFirst_map_key split: sum.splits option.splits)

lemma syncItem_keys:
  assumes d: "distinct (map doc_id db)" and r: "syncItem E now it db = Inr (db', n, k)"
  shows "(map doc_id db' = map doc_id db \<and> map mediumId db' = map mediumId db)
       \<or> (\<exists>doc. db' = db @ [doc] \<and> doc_id doc = newId db
              \<and> mediumId doc \<notin> set (map mediumId db))"
  using syncItem_InrD [OF r]
proof (elim disjE conjE)
  assume "db' = markFailed E now it db"
  then show ?thesis by (simp add: markFailed_keys)
next
  assume att: "syncAttempt E now it db = Inr (db', n)"
  then obtain a where a: "parseMediumArticle (newDate E) now it = Inr a"
    by (auto simp: syncAttempt_def split: sum.splits)
  show ?thesis
  proof (cases "art_mediumId a")
    case None
    with att a show ?thesis by (simp add: syncAttempt_def)
  next
    case (Some m)
    show ?thesis
    proof (cases "m = []")
      case True
      with att a Some show ?thesis by (simp add: syncAttempt_def)
    next
      case False
      show ?thesis
      proof (cases "findOne (\<lambda>p. mediumId p = m) db")
        case None
        with att a Some False have "create (validates E) now m a db = Inr db'"
          by (auto simp: syncAttempt_def split: sum.splits)
        from create_InrD [OF this] show ?thesis by auto
      next
        case (Some ex)
        have ex: "ex \<in> set db" "mediumId ex = m" using Some findOne_SomeD by blast+
        note att' = syncAttempt_existing [OF a \<open>art_mediumId a = Some m\<close> False Some]
        show ?thesis
        proof (cases "needsUpdate now a ex")
          case False
          with att att' show ?thesis by simp
        next
          case True
          with att att' obtain f where f: "castArticle m a = Inr f"
            and db': "db' = findByIdAndUpdate (doc_id ex) (\<lambda>p. keepLocal ex (f p)) now db"
            by (auto split: sum.splits)
          have "map doc_id db' = map doc_id db"
            unfolding db' findByIdAndUpdate_def
            by (rule updateFirst_map_key) (simp add: castArticle_keys [OF f])
          moreover have "map mediumId db' = map mediumId db"
            unfolding db' update_existing [OF d ex(1)]
            using ex(2) castArticle_keys [OF f] same_doc [OF d _ ex(1)] by (auto simp: o_def)
          ultimately show ?thesis by simp
        qed
      qed
    qed
  qed
qed




lemma syncLoop_counts:
  "syncLoop E now its (db, n, k) =
     (case syncLoop E now its (db, 0, 0) of (x, db', n', k') \<Rightarrow> (x, db', n + n', k + k'))"
proof (induction its arbitrary: db n k)
  case Nil
  show ?case by simp
next
  case (Cons it its)
  show ?case
  proof (cases "syncItem E now it db")
    case (Inl e)
    then show ?thesis by simp
  next
    case (Inr r)
    obtain db1 n1 k1 where r: "r = (db1, n1, k1)" by (cases r)
    show ?thesis
      using Cons.IH [of db1 "n + n1" "k + k1"] Cons.IH [of db1 n1 k1] Inr r
      by (simp split: prod.splits)
  qed
qed

lemma no_identifier:
  assumes "\<not> truthy (item_guid it)" "\<not> truthy (item_link it)"
    and "parseMediumArticle nd now it = Inr a"
  shows "art_mediumId a = None"
proof -
  have "generateMediumId (js_or (item_guid it) (item_link it)) = Inr None"
    using assms(1,2)
    by (cases "item_guid it"; cases "item_link it") (simp_all add: js_or_def generateMediumId_def)
  with assms(3) show ?thesis
    by (auto simp: parseMediumArticle_def parseBody_def Let_def split: sum.splits jsval.splits)
qed

lemma syncItem_count:
  "syncItem E now it db = Inr (db', n, k) \<Longrightarrow> n + k = 1 \<or> (n = 0 \<and> k = 0 \<and> db' = db)"
  by (auto simp: syncItem_def syncAttempt_def split: sum.splits option.splits if_splits)

lemma syncLoop_count_bound:
  "syncLoop E now its (db, 0, 0) = (x, db', n, k) \<Longrightarrow> n + k \<le> length its"
proof (induction its arbitrary: x db db' n k)
  case Nil
  then show ?case by simp
next
  case (Cons it its)
  show ?case
  proof (cases "syncItem E now it db")
    case (Inl e)
    with Cons.prems show ?thesis by simp
  next
    case (Inr r)
    obtain db1 n1 k1 where s: "syncItem E now it db = Inr (db1, n1, k1)"
      using Inr by (cases r) simp
    obtain y db2 n2 k2 where r: "syncLoop E now its (db1, 0, 0) = (y, db2, n2, k2)"
      by (cases "syncLoop E now its (db1, 0, 0)")
    have "n = n1 + n2" "k = k1 + k2"
      using Cons.prems s r syncLoop_counts [of E now its db1 n1 k1] by simp_all
    with Cons.IH [OF r] syncItem_count [OF s] show ?thesis by auto
  qed
qed

section \<open>The examples, evaluated\<close>

lemma sampleEnv_simps [simp]:
  "newDate sampleEnv = sampleDate"
  "validates sampleEnv = blogPostSchema_valid"
  by (simp_all add: sampleEnv_def)

lemma parse_sampleEntry: "parseMediumArticle sampleDate now sampleEntry = Inr (sampleArticle now)"
  by code_simp

lemma parse_entryNew: "parseMediumArticle sampleDate now entryNew = Inr (articleNew now)"
  by code_simp

lemma articleNew_id: "art_mediumId (articleNew now) = Some ''fff999''"
  by (simp add: articleNew_def)

lemma syncItem_entryNew:
  "syncItem sampleEnv now entryNew [samplePost] = Inr ([samplePost], 0, 1)"
  "syncItem sampleEnv now entryNew [syncedPost t] = Inr ([syncedPost t], 0, 1)"
proof -
  have f: "findOne (\<lambda>p. mediumId p = ''fff999'') [samplePost] = None"
    "findOne (\<lambda>p. mediumId p = ''fff999'') [syncedPost t] = None"
    by (simp_all add: findOne_def samplePost_def syncedPost_def)
  have t: "toText (item_title entryNew) = Inr ''Second Post''"
    by (simp add: entryNew_def)
  obtain e where e: "create blogPostSchema_valid now ''fff999'' (articleNew now) [samplePost] = Inl e"
    using create_rejected by blast
  obtain e' where e': "create blogPostSchema_valid now ''fff999'' (articleNew now) [syncedPost t] = Inl e'"
    using create_rejected by blast
  show "syncItem sampleEnv now entryNew [samplePost] = Inr ([samplePost], 0, 1)"
    using f(1) t e
    by (simp add: syncItem_def syncAttempt_def markFailed_def parse_entryNew articleNew_id
        samplePost_def)
  show "syncItem sampleEnv now entryNew [syncedPost t] = Inr ([syncedPost t], 0, 1)"
    using f(2) t e'
    by (simp add: syncItem_def syncAttempt_def markFailed_def parse_entryNew articleNew_id
        samplePost_def syncedPost_def)
qed

lemma syncItem_sampleEntry:
  "syncItem sampleEnv now sampleEntry [samplePost] = Inr ([syncedPost now], 1, 0)"
proof -
  have f: "findOne (\<lambda>p. mediumId p = ''abc123'') [samplePost] = Some samplePost"
    by (simp add: findOne_def samplePost_def)
  have n: "needsUpdate now (sampleArticle now) samplePost"
    by (simp add: needsUpdate_def sampleArticle_def samplePost_def)
  have c: "castArticle ''abc123'' (sampleArticle now)
     = Inr (setArticle ''abc123'' (sampleArticle now) (Some ''Mukesh Rawat'')
              (Some ''https://medium.com/@yourusername/hello-world-abc123'') 1705708800000)"
    by (simp add: castArticle_def castString_def castDate_def sampleArticle_def)
  have i: "art_mediumId (sampleArticle now) = Some ''abc123''" by (simp add: sampleArticle_def)
  have w: "(setArticle ''abc123'' (sampleArticle now) (Some ''Mukesh Rawat'')
              (Some ''https://medium.com/@yourusername/hello-world-abc123'') 1705708800000
              samplePost)\<lparr>updatedAt := now\<rparr> = syncedPost now"
    by (simp add: setArticle_def sampleArticle_def samplePost_def syncedPost_def
        trim_def isSpace_def)
  show ?thesis
    using f n
    by (simp add: syncItem_def syncAttempt_def parse_sampleEntry i c findByIdAndUpdate_def w)
qed

lemma parse_entryBadTitle:
  "parseMediumArticle nd now entryBadTitle
     = Inl (Error ''Error'' ''Failed to parse article: trim is not a function'')"
  "parseMediumArticle nd now entryBareTitle
     = Inl (Error ''Error'' ''Failed to parse article: trim is not a function'')"
  "parseMediumArticle nd now entryNoIdBareTitle
     = Inl (Error ''Error'' ''Failed to parse article: trim is not a function'')"
  by code_simp+

lemma syncItem_entryBadTitle: "syncItem E now entryBadTitle db = Inr (db, 0, 1)"
proof -
  have "toText (item_title entryBadTitle) = Inr ''[object Object]''"
    by (simp add: entryBadTitle_def)
  then show ?thesis
    by (simp add: syncItem_def syncAttempt_def markFailed_def parse_entryBadTitle)
qed

lemma syncItem_entryBareTitle:
  "syncItem E now entryBareTitle db
     = Inl (typeError ''Cannot convert object to primitive value'')"
  "syncItem E now entryNoIdBareTitle db
     = Inl (typeError ''Cannot convert object to primitive value'')"
  by (simp_all add: syncItem_throws_iff entryBareTitle_def entryNoIdBareTitle_def)

lemma syncItem_entryNoId: "syncItem sampleEnv now entryNoId db = Inr (db, 0, 0)"
proof -
  have "parseMediumArticle sampleDate now entryNoId
          = Inr ((sampleArticle now)\<lparr>art_mediumId := None, art_mediumUrl := JUndefined\<rparr>)"
    by code_simp
  then show ?thesis by (simp add: syncItem_def syncAttempt_def)
qed

section \<open>Reconciling an entry with a stored post\<close>

lemma parse_sync_fields:
  "parseMediumArticle nd now it = Inr a \<Longrightarrow> art_syncStatus a = Synced \<and> art_lastSyncedAt a = now"
  by (auto simp: parseMediumArticle_def parseBody_def Let_def split: sum.splits jsval.splits)


lemma map_field_update:
  "(\<And>p. k (g p) = k p) \<Longrightarrow> map k (map (\<lambda>p. if c p then g p else p) db) = map k db"
  by (induction db) auto

text \<open>The round for an entry that has the identifier of a stored post and values that
  the store can cast.\<close>

lemma existing_round:
  assumes "distinct (map doc_id db)"
    and "parseMediumArticle (newDate E) now it = Inr a"
    and "art_mediumId a = Some m" and "m \<noteq> []"
    and "findOne (\<lambda>p. mediumId p = m) db = Some ex"
    and "castString (art_author a) = Inr au"
    and "castString (art_mediumUrl a) = Inr url"
    and "art_publishedAt a = Some t"
  shows "syncItem E now it db =
           (if needsUpdate now a ex
            then Inr (map (\<lambda>p. if doc_id p = doc_id ex
                           then (setArticle m a au url t ex)\<lparr>updatedAt := now\<rparr> else p) db, 1, 0)
            else Inr (db, 0, 0))"
proof -
  have ex: "ex \<in> set db" using assms(5) findOne_SomeD by blast
  have c: "castArticle m a = Inr (setArticle m a au url t)"
    using assms(6-8) by (simp add: castArticle_def castDate_def)
  show ?thesis
    unfolding syncItem_def syncAttempt_existing [OF assms(2-5)] c
    by (simp add: update_existing [OF assms(1) ex])
qed

text \<open>
  Claim C1, as amended. Take a feed entry that parses, whose identifier \<open>m\<close> is the
  \<open>mediumId\<close> of a stored post (\<open>ex\<close>, the one \<open>findOne\<close> returns), and whose values
  the store can cast: the author and the link are strings or absent, the publish date
  \<open>t\<close> is a valid date. When \<open>t\<close> is later than the stored \<open>publishedAt\<close>, or the stored
  \<open>syncStatus\<close> is \<open>failed\<close>, or more than 24 hours have passed since the stored
  \<open>lastSyncedAt\<close>, the round counts one synced entry and the post becomes what it was with
  the entry's title, description, content, excerpt, author, tags, categories, link, image,
  date and reading time written over it, \<open>lastSyncedAt\<close> and \<open>updatedAt\<close> set to the time
  of the run and \<open>syncStatus\<close> set to \<open>synced\<close>; a link that the entry does not have
  leaves the stored one. When none of the three conditions holds, the round leaves the
  whole store as it is and counts nothing. In both cases every other post is untouched
  and \<open>views\<close>, \<open>likes\<close> and \<open>featured\<close> of every post are what they were.
\<close>

theorem sync_existing_post:
  assumes "distinct (map doc_id db)"
    and "parseMediumArticle (newDate E) now it = Inr a"
    and "art_mediumId a = Some m" and "m \<noteq> []"
    and "findOne (\<lambda>p. mediumId p = m) db = Some ex"
    and "castString (art_author a) = Inr au"
    and "castString (art_mediumUrl a) = Inr url"
    and "art_publishedAt a = Some t"
  shows "syncItem E now it db =
           (if publishedAt ex < t \<or> syncStatus ex = Failed
               \<or> 24 * 60 * 60 * 1000 < now - lastSyncedAt ex
            then Inr (map (\<lambda>p. if doc_id p = doc_id ex
                         then ex\<lparr> title := trim (art_title a),
                                 description := trim (art_description a),
                                 content := art_content a,
                                 excerpt := art_excerpt a,
                                 author := (case au of None \<Rightarrow> author ex | Some s \<Rightarrow> Some s),
                                 tags := map trim (art_tags a),
                                 categories := map trim (art_categories a),
                                 mediumUrl := (case url of None \<Rightarrow> mediumUrl ex | Some u \<Rightarrow> Some u),
                                 imageUrl := art_imageUrl a,
                                 publishedAt := t,
                                 readingTime := art_readingTime a,
                                 lastSyncedAt := now,
                                 syncStatus := Synced,
                                 updatedAt := now \<rparr>
                         else p) db, 1, 0)
            else Inr (db, 0, 0))
         \<and> (\<forall>db' n k. syncItem E now it db = Inr (db', n, k) \<longrightarrow>
               map views db' = map views db \<and> map likes db' = map likes db
               \<and> map featured db' = map featured db \<and> map doc_id db' = map doc_id db)"
proof -
  let ?new = "ex\<lparr> title := trim (art_title a), description := trim (art_description a),
                  content := art_content a, excerpt := art_excerpt a,
                  author := (case au of None \<Rightarrow> author ex | Some s \<Rightarrow> Some s),
                  tags := map trim (art_tags a), categories := map trim (art_categories a),
                  mediumUrl := (case url of None \<Rightarrow> mediumUrl ex | Some u \<Rightarrow> Some u),
                  imageUrl := art_imageUrl a, publishedAt := t,
                  readingTime := art_readingTime a, lastSyncedAt := now,
                  syncStatus := Synced, updatedAt := now \<rparr>"
  let ?due = "publishedAt ex < t \<or> syncStatus ex = Failed
               \<or> 24 * 60 * 60 * 1000 < now - lastSyncedAt ex"
  have ex: "ex \<in> set db" "mediumId ex = m" using assms(5) findOne_SomeD by blast+
  have w: "(setArticle m a au url t ex)\<lparr>updatedAt := now\<rparr> = ?new"
    using parse_sync_fields [OF assms(2)] ex(2)
    by (cases ex; cases au; cases url) (simp_all add: setArticle_def)
  have eq: "syncItem E now it db
              = (if ?due then Inr (map (\<lambda>p. if doc_id p = doc_id ex then ?new else p) db, 1, 0)
                 else Inr (db, 0, 0))"
  proof -
    have "needsUpdate now a ex = ?due" using assms(8) by (simp add: needsUpdate_def)
    then show ?thesis unfolding existing_round [OF assms] by (simp add: w)
  qed
  have keep: "map views db' = map views db \<and> map likes db' = map likes db
               \<and> map featured db' = map featured db \<and> map doc_id db' = map doc_id db"
    if "syncItem E now it db = Inr (db', n, k)" for db' n k
  proof (cases ?due)
    case False
    with eq that show ?thesis by simp
  next
    case True
    with eq that have db': "db' = map (\<lambda>p. if doc_id p = doc_id ex then ?new else p) db"
      by simp
    have s: "\<And>p. p \<in> set db \<Longrightarrow> doc_id p = doc_id ex \<Longrightarrow> p = ex"
      using same_doc [OF assms(1) _ ex(1)] by blast
    have "db' = map (\<lambda>p. if doc_id p = doc_id ex
                    then p\<lparr> title := trim (art_title a), description := trim (art_description a),
                  content := art_content a, excerpt := art_excerpt a,
                  author := (case au of None \<Rightarrow> author ex | Some s \<Rightarrow> Some s),
                  tags := map trim (art_tags a), categories := map trim (art_categories a),
                  mediumUrl := (case url of None \<Rightarrow> mediumUrl ex | Some u \<Rightarrow> Some u),
                  imageUrl := art_imageUrl a, publishedAt := t,
                  readingTime := art_readingTime a, lastSyncedAt := now,
                  syncStatus := Synced, updatedAt := now \<rparr> else p) db"
      unfolding db' by (rule map_cong [OF refl]) (use s in auto)
    then show ?thesis by (simp add: map_field_update)
  qed
  from eq keep show ?thesis by blast
qed

lemma parse_entrySameDate:
  "parseMediumArticle sampleDate now entrySameDate
     = Inr ((sampleArticle now)\<lparr>art_publishedAt := Some 1705276800000\<rparr>)"
  by code_simp

theorem sync_existing_post_witness:
  "syncItem sampleEnv 1705708900000 sampleEntry [samplePost]
     = Inr ([syncedPost 1705708900000], 1, 0)
   \<and> title (syncedPost 1705708900000) = ''Hello World''
   \<and> views (syncedPost 1705708900000) = 7 \<and> likes (syncedPost 1705708900000) = 3
   \<and> featured (syncedPost 1705708900000)
   \<and> syncItem sampleEnv 1705280400000 entrySameDate [samplePost] = Inr ([samplePost], 0, 0)"
proof -
  have h1: "distinct (map doc_id [samplePost])" by simp
  have h2: "parseMediumArticle (newDate sampleEnv) 1705708900000 sampleEntry
              = Inr (sampleArticle 1705708900000)"
    by (simp add: parse_sampleEntry)
  have h3: "art_mediumId (sampleArticle 1705708900000) = Some ''abc123''"
    by (simp add: sampleArticle_def)
  have h4: "''abc123'' \<noteq> []" by simp
  have h5: "findOne (\<lambda>p. mediumId p = ''abc123'') [samplePost] = Some samplePost"
    by (simp add: findOne_def samplePost_def)
  have h6: "castString (art_author (sampleArticle 1705708900000)) = Inr (Some ''Mukesh Rawat'')"
    by (simp add: sampleArticle_def castString_def)
  have h7: "castString (art_mediumUrl (sampleArticle 1705708900000))
              = Inr (Some ''https://medium.com/@yourusername/hello-world-abc123'')"
    by (simp add: sampleArticle_def castString_def)
  have h8: "art_publishedAt (sampleArticle 1705708900000) = Some 1705708800000"
    by (simp add: sampleArticle_def)
  have g2: "parseMediumArticle (newDate sampleEnv) 1705280400000 entrySameDate
              = Inr ((sampleArticle 1705280400000)\<lparr>art_publishedAt := Some 1705276800000\<rparr>)"
    by (simp add: parse_entrySameDate)
  have g3: "art_mediumId ((sampleArticle 1705280400000)\<lparr>art_publishedAt := Some 1705276800000\<rparr>)
              = Some ''abc123''"
    by (simp add: sampleArticle_def)
  have g6: "castString (art_author ((sampleArticle 1705280400000)\<lparr>art_publishedAt := Some 1705276800000\<rparr>))
              = Inr (Some ''Mukesh Rawat'')"
    by (simp add: sampleArticle_def castString_def)
  have g7: "castString (art_mediumUrl ((sampleArticle 1705280400000)\<lparr>art_publishedAt := Some 1705276800000\<rparr>))
              = Inr (Some ''https://medium.com/@yourusername/hello-world-abc123'')"
    by (simp add: sampleArticle_def castString_def)
  have g8: "art_publishedAt ((sampleArticle 1705280400000)\<lparr>art_publishedAt := Some 1705276800000\<rparr>)
              = Some 1705276800000"
    by simp
  have a: "syncItem sampleEnv 1705708900000 sampleEntry [samplePost]
             = Inr ([syncedPost 1705708900000], 1, 0)"
    using sync_existing_post [OF h1 h2 h3 h4 h5 h6 h7 h8]
    by (simp add: samplePost_def syncedPost_def sampleArticle_def trim_def isSpace_def)
  have b: "syncItem sampleEnv 1705280400000 entrySameDate [samplePost] = Inr ([samplePost], 0, 0)"
    using sync_existing_post [OF h1 g2 g3 h4 h5 g6 g7 g8]
    by (simp add: samplePost_def)
  from a b show ?thesis by (simp add: syncedPost_def samplePost_def)
qed

text \<open>When the overwrite is due and the store rejects the entry's values, the \<open>catch\<close>
  marks the post as failed and nothing else of it changes.\<close>

lemma overwrite_rejected:
  assumes "distinct (map doc_id db)"
    and "parseMediumArticle (newDate E) now it = Inr a"
    and "art_mediumId a = Some m" and "m \<noteq> []"
    and "findOne (\<lambda>p. mediumId p = m) db = Some ex"
    and "needsUpdate now a ex" and "castArticle m a = Inl e"
  shows "syncItem E now it db =
           Inr (map (\<lambda>p. if doc_id p = doc_id ex
                      then ex\<lparr>syncStatus := Failed, lastSyncedAt := now, updatedAt := now\<rparr>
                      else p) db, 0, 1)"
proof -
  have "syncAttempt E now it db = Inl e"
    using syncAttempt_existing [OF assms(2-5)] assms(6,7) by simp
  moreover have "markFailed E now it db
      = map (\<lambda>p. if doc_id p = doc_id ex
                  then ex\<lparr>syncStatus := Failed, lastSyncedAt := now, updatedAt := now\<rparr>
                  else p) db"
    using assms(2-4) updateFirst_found [OF assms(1,5)] by (simp add: markFailed_def)
  moreover obtain s where "toText (item_title it) = Inr s"
    using parse_title_text [OF assms(2)] by blast
  ultimately show ?thesis by (simp add: syncItem_def)
qed

text \<open>
  Claim C1 as stated fails for an entry whose values the store rejects. The entry
  \<open>entryNoDate\<close> has the identifier of the stored post \<open>failedPost\<close>, whose \<open>syncStatus\<close>
  is \<open>failed\<close>, so the overwrite is due; its date is invalid, the write throws, and the
  \<open>catch\<close> marks the post as failed again: the title and the other content paths are
  not overwritten.
\<close>

theorem sync_existing_post_write_rejected:
  "syncStatus failedPost = Failed
   \<and> map_sum id art_mediumId (parseMediumArticle (newDate sampleEnv) 1705708900000 entryNoDate)
       = Inr (Some (mediumId failedPost))
   \<and> map_sum id art_title (parseMediumArticle (newDate sampleEnv) 1705708900000 entryNoDate)
       = Inr ''Hello World''
   \<and> syncItem sampleEnv 1705708900000 entryNoDate [failedPost]
       = Inr ([failedPost\<lparr> lastSyncedAt := 1705708900000, updatedAt := 1705708900000 \<rparr>], 0, 1)
   \<and> title failedPost = ''Getting Started with React and TypeScript''"
  by code_simp

section \<open>Failures inside the routine\<close>

text \<open>\<open>syncArticles\<close> returns a result object whatever happens: for every answer of the
  feed parser, every feed, every store and both values of the busy flag. A successful
  result counts every entry of the feed; a result without \<open>success\<close> carries a message
  or the text of the exception.\<close>

lemma syncArticles_returns_result:
  "\<exists>r. fst (syncArticles E now response svc db) = Inr r
     \<and> (success r \<longrightarrow>
          (\<exists>its n k. fetchMediumArticles response = Inr its \<and> syncedCount r = Some n
             \<and> errorCount r = Some k \<and> totalProcessed r = Some (length its)
             \<and> n + k \<le> length its))
     \<and> (\<not> success r \<longrightarrow> message r \<noteq> None \<or> error r \<noteq> None)"
proof (cases "syncInProgress svc")
  case True
  then show ?thesis by (simp add: syncArticles_def)
next
  case False
  show ?thesis
  proof (cases "fetchMediumArticles response")
    case (Inl e)
    with False show ?thesis by (simp add: syncArticles_def syncBody_def)
  next
    case (Inr its)
    obtain x db' n k where l: "syncLoop E now its (db, 0, 0) = (x, db', n, k)"
      by (cases "syncLoop E now its (db, 0, 0)")
    from syncLoop_count_bound [OF l] False Inr l show ?thesis
      by (cases x) (simp_all add: syncArticles_def syncBody_def)
  qed
qed

lemma syncArticles_flag:
  "\<not> syncInProgress svc \<Longrightarrow> \<not> syncInProgress (fst (snd (syncArticles E now response svc db)))"
  by (simp add: syncArticles_def split: prod.splits sum.splits)

lemma fetch_failure_result:
  assumes "\<not> syncInProgress svc" "fetchMediumArticles response = Inl e"
  shows "syncArticles E now response svc db
           = (Inr \<lparr> success = False, message = None, error = Some (err_message e),
                    syncedCount = Some 0, errorCount = Some 0, totalProcessed = None \<rparr>,
              svc\<lparr>syncInProgress := False\<rparr>, db)"
  using assms by (simp add: syncArticles_def syncBody_def)

text \<open>A round whose attempt throws adds one to \<open>errorCount\<close> and the loop goes on with the
  next entry, provided the title of the entry has a text for the log line.\<close>

lemma failed_round_continues:
  assumes "syncAttempt E now it db = Inl e" "toText (item_title it) = Inr line"
  shows "syncLoop E now (it # its) (db, n, k)
           = syncLoop E now its (markFailed E now it db, n, k + 1)"
  using assms by (simp add: syncItem_def)

text \<open>When the title has no text, no later entry is processed.\<close>

lemma unprintable_title_ends_loop:
  assumes "toText (item_title it) = Inl e"
  shows "syncLoop E now (it # its) (db, n, k) = (Some e, db, n, k)"
proof -
  have "syncItem E now it db = Inl e" using assms by (simp add: syncItem_throws_iff)
  then show ?thesis by simp
qed

lemma run_feedOne:
  "syncArticles sampleEnv 1705708900000 feedOne idle [samplePost]
     = (Inr \<lparr> success = True, message = None, error = None, syncedCount = Some 1,
              errorCount = Some 0, totalProcessed = Some 1 \<rparr>,
        idle, [syncedPost 1705708900000])"
  by (simp add: syncArticles_def syncBody_def fetchMediumArticles_def feedOne_def idle_def
      syncItem_sampleEntry)

text \<open>A run in which the first entry fails with a title that has a text: the entry is
  counted as an error and the next entry is synced.\<close>

lemma run_continues_after_failure:
  "syncArticles sampleEnv 1705708900000
       (Inr (Some \<lparr> items = Some [entryBadTitle, sampleEntry] \<rparr>)) idle [samplePost]
     = (Inr \<lparr> success = True, message = None, error = None, syncedCount = Some 1,
              errorCount = Some 1, totalProcessed = Some 2 \<rparr>,
        idle, [syncedPost 1705708900000])"
  by (simp add: syncArticles_def syncBody_def fetchMediumArticles_def idle_def
      syncItem_entryBadTitle syncItem_sampleEntry)

text \<open>
  Claim C4 (the sync routine never throws; every outcome is a result object; a failure
  on one entry does not abort the remaining entries). The routine does return a result
  object in every case, but a failing entry can end the batch: the \<open>catch\<close> of the round
  builds its log line from \<open>item.title\<close> before the guarded attempt to mark the post, and
  for a title that has no conversion to a string that line throws into the outer
  \<open>catch\<close>. The feed \<open>feedBareTitle\<close> holds such an entry followed by \<open>sampleEntry\<close>: the
  run reports no success and no count for either entry, and the stored post is not
  overwritten, while a run on \<open>sampleEntry\<close> alone overwrites it.
\<close>

theorem failing_entry_aborts_batch:
  "fetchMediumArticles feedBareTitle = Inr [entryBareTitle, sampleEntry]
   \<and> syncArticles sampleEnv 1705708900000 feedBareTitle idle [samplePost]
       = (Inr \<lparr> success = False, message = None,
                error = Some ''Cannot convert object to primitive value'',
                syncedCount = Some 0, errorCount = Some 0, totalProcessed = None \<rparr>,
          idle, [samplePost])
   \<and> syncArticles sampleEnv 1705708900000 feedOne idle [samplePost]
       = (Inr \<lparr> success = True, message = None, error = None, syncedCount = Some 1,
                errorCount = Some 0, totalProcessed = Some 1 \<rparr>,
          idle, [syncedPost 1705708900000])"
proof -
  have "syncLoop sampleEnv 1705708900000 [entryBareTitle, sampleEntry] ([samplePost], 0, 0)
          = (Some (typeError ''Cannot convert object to primitive value''), [samplePost], 0, 0)"
    by (simp add: syncItem_entryBareTitle)
  then have "syncArticles sampleEnv 1705708900000 feedBareTitle idle [samplePost]
       = (Inr \<lparr> success = False, message = None,
                error = Some ''Cannot convert object to primitive value'',
                syncedCount = Some 0, errorCount = Some 0, totalProcessed = None \<rparr>,
          idle, [samplePost])"
    by (simp add: syncArticles_def syncBody_def fetchMediumArticles_def feedBareTitle_def
        idle_def typeError_def del: syncLoop.simps)
  moreover have "fetchMediumArticles feedBareTitle = Inr [entryBareTitle, sampleEntry]"
    by (simp add: fetchMediumArticles_def feedBareTitle_def)
  ultimately show ?thesis using run_feedOne by simp
qed

section \<open>Entries without identifier\<close>

text \<open>When neither the \<open>guid\<close> nor the \<open>link\<close> of an entry is a non-empty value, its round
  leaves the store as it is and counts nothing as synced. If the entry parses, its
  identifier is \<open>null\<close>, the round changes no counter, and the loop goes on with the next
  entry.\<close>

lemma entry_without_identifier_skipped:
  assumes "\<not> truthy (item_guid it)" "\<not> truthy (item_link it)"
  shows "syncItem E now it db = Inr (db', n, k) \<Longrightarrow> db' = db \<and> n = 0"
    and "parseMediumArticle (newDate E) now it = Inr a \<Longrightarrow>
           art_mediumId a = None \<and> syncItem E now it db = Inr (db, 0, 0)
           \<and> syncLoop E now (it # its) (db, s, e) = syncLoop E now its (db, s, e)"
proof -
  show "db' = db \<and> n = 0" if r: "syncItem E now it db = Inr (db', n, k)"
  proof (cases "parseMediumArticle (newDate E) now it")
    case (Inl x)
    with r show ?thesis
      by (auto simp: syncItem_def syncAttempt_def markFailed_def split: sum.splits)
  next
    case (Inr b)
    with no_identifier [OF assms this] r show ?thesis
      by (simp add: syncItem_def syncAttempt_def)
  qed
  show "art_mediumId a = None \<and> syncItem E now it db = Inr (db, 0, 0)
           \<and> syncLoop E now (it # its) (db, s, e) = syncLoop E now its (db, s, e)"
    if p: "parseMediumArticle (newDate E) now it = Inr a"
    using no_identifier [OF assms p] p by (simp add: syncItem_def syncAttempt_def)
qed

lemma run_skips_entryNoId:
  "syncArticles sampleEnv 1705708900000
       (Inr (Some \<lparr> items = Some [entryNoId, sampleEntry] \<rparr>)) idle [samplePost]
     = (Inr \<lparr> success = True, message = None, error = None, syncedCount = Some 1,
              errorCount = Some 0, totalProcessed = Some 2 \<rparr>,
        idle, [syncedPost 1705708900000])"
  by (simp add: syncArticles_def syncBody_def fetchMediumArticles_def idle_def
      syncItem_entryNoId syncItem_sampleEntry)

text \<open>
  Claim C5 (an entry without a derivable identifier is skipped, and the rest of the batch
  still runs). The entry \<open>entryNoIdBareTitle\<close> has neither \<open>guid\<close> nor \<open>link\<close>, so that
  \<open>generateMediumId\<close> returns \<open>null\<close> for it, and its title is an object without a
  conversion to a string. Parsing it throws at the title, the log line of the \<open>catch\<close>
  throws again, and the loop ends: in the feed \<open>feedNoIdBareTitle\<close> the entry
  \<open>sampleEntry\<close> that follows it is never processed and the stored post keeps its old
  content, while after the entry \<open>entryNoId\<close>, which differs in its title only, the same
  entry is synced.
\<close>

theorem entry_without_identifier_aborts_batch:
  "\<not> truthy (item_guid entryNoIdBareTitle) \<and> \<not> truthy (item_link entryNoIdBareTitle)
   \<and> generateMediumId (js_or (item_guid entryNoIdBareTitle) (item_link entryNoIdBareTitle))
       = Inr None
   \<and> fetchMediumArticles feedNoIdBareTitle = Inr [entryNoIdBareTitle, sampleEntry]
   \<and> syncArticles sampleEnv 1705708900000 feedNoIdBareTitle idle [samplePost]
       = (Inr \<lparr> success = False, message = None,
                error = Some ''Cannot convert object to primitive value'',
                syncedCount = Some 0, errorCount = Some 0, totalProcessed = None \<rparr>,
          idle, [samplePost])
   \<and> entryNoIdBareTitle = entryNoId\<lparr> item_title := JObject None \<rparr>
   \<and> syncArticles sampleEnv 1705708900000
         (Inr (Some \<lparr> items = Some [entryNoId, sampleEntry] \<rparr>)) idle [samplePost]
       = (Inr \<lparr> success = True, message = None, error = None, syncedCount = Some 1,
                errorCount = Some 0, totalProcessed = Some 2 \<rparr>,
          idle, [syncedPost 1705708900000])"
proof -
  have "syncLoop sampleEnv 1705708900000 [entryNoIdBareTitle, sampleEntry] ([samplePost], 0, 0)
          = (Some (typeError ''Cannot convert object to primitive value''), [samplePost], 0, 0)"
    by (simp add: syncItem_entryBareTitle)
  then have "syncArticles sampleEnv 1705708900000 feedNoIdBareTitle idle [samplePost]
       = (Inr \<lparr> success = False, message = None,
                error = Some ''Cannot convert object to primitive value'',
                syncedCount = Some 0, errorCount = Some 0, totalProcessed = None \<rparr>,
          idle, [samplePost])"
    by (simp add: syncArticles_def syncBody_def fetchMediumArticles_def feedNoIdBareTitle_def
        idle_def typeError_def del: syncLoop.simps)
  moreover have "fetchMediumArticles feedNoIdBareTitle = Inr [entryNoIdBareTitle, sampleEntry]"
    by (simp add: fetchMediumArticles_def feedNoIdBareTitle_def)
  moreover have "\<not> truthy (item_guid entryNoIdBareTitle) \<and> \<not> truthy (item_link entryNoIdBareTitle)
     \<and> generateMediumId (js_or (item_guid entryNoIdBareTitle) (item_link entryNoIdBareTitle))
         = Inr None"
    by (simp add: entryNoIdBareTitle_def entryNoId_def js_or_def generateMediumId_def)
  ultimately show ?thesis using run_skips_entryNoId by (simp add: entryNoIdBareTitle_def)
qed

section \<open>The public views\<close>

lemma set_insertBy [simp]: "set (insertBy before x xs) = insert x (set xs)"
  by (induction xs) auto

lemma set_sortBy [simp]: "set (sortBy before xs) = set xs"
  by (induction xs) (simp_all add: sortBy_def)

lemma in_set_limitToD: "x \<in> set (limitTo n xs) \<Longrightarrow> x \<in> set xs"
  by (auto simp: limitTo_def split: if_splits dest: in_set_takeD)

lemma hideContent_status [simp]: "status (hideContent p) = status p"
  by (simp add: hideContent_def)

lemma listFilter_published: "listFilter q rx d \<Longrightarrow> status d = Published"
  unfolding listFilter_def by (rule conjunct1)

lemma getFeatured_published: "p \<in> set (getFeatured n db) \<Longrightarrow> status p = Published \<and> p \<in> set db"
  unfolding getFeatured_def by (drule in_set_limitToD) simp

lemma page_published:
  assumes "p \<in> set (map hideContent (limitTo lm (drop k (sortBy before (filter (listFilter q rx) db)))))"
  shows "status p = Published \<and> (\<exists>d \<in> set db. p = hideContent d)"
proof -
  from assms obtain d where d: "p = hideContent d"
    "d \<in> set (limitTo lm (drop k (sortBy before (filter (listFilter q rx) db))))"
    by (auto simp del: set_sortBy)
  from d(2) have "d \<in> set (drop k (sortBy before (filter (listFilter q rx) db)))"
    by (rule in_set_limitToD)
  then have "d \<in> set (sortBy before (filter (listFilter q rx) db))"
    by (rule in_set_dropD)
  then have "d \<in> set db" "listFilter q rx d"
    by simp_all
  with d(1) listFilter_published show ?thesis by auto
qed

lemma listReply_shape:
  "\<exists>k before t tp f.
      listReply E q rx pg lm db
        = Reply 200 (Posts (length (map hideContent (limitTo lm (drop k (sortBy before (filter (listFilter q rx) db))))))
                       t tp (Some pg)
                       (map hideContent (limitTo lm (drop k (sortBy before (filter (listFilter q rx) db)))))
                       (if length f > 0 then Some f else None))
      \<and> (f = [] \<or> f = getFeatured 3 db)"
  unfolding listReply_def Let_def by (intro exI conjI, rule refl) simp

lemma listReply_published:
  assumes "payload (listReply E q rx pg lm db) = Posts n t tp cp ps fp"
  shows "(\<forall>p \<in> set ps. status p = Published)
       \<and> (\<forall>p \<in> set (case fp of None \<Rightarrow> [] | Some f \<Rightarrow> f). status p = Published)"
proof -
  obtain k before t' tp' f where
    r: "listReply E q rx pg lm db
        = Reply 200 (Posts (length (map hideContent (limitTo lm (drop k (sortBy before (filter (listFilter q rx) db))))))
                       t' tp' (Some pg)
                       (map hideContent (limitTo lm (drop k (sortBy before (filter (listFilter q rx) db)))))
                       (if length f > 0 then Some f else None))"
    and f: "f = [] \<or> f = getFeatured 3 db"
    using listReply_shape by blast
  from assms have ps: "ps = map hideContent (limitTo lm (drop k (sortBy before (filter (listFilter q rx) db))))"
    and fp: "fp = (if length f > 0 then Some f else None)"
    unfolding r by simp_all
  have "\<forall>p \<in> set ps. status p = Published"
    unfolding ps using page_published by auto
  moreover have "\<forall>p \<in> set (case fp of None \<Rightarrow> [] | Some f \<Rightarrow> f). status p = Published"
    unfolding fp using f getFeatured_published by (cases "f = []") auto
  ultimately show ?thesis by simp
qed

lemma getBlogPosts_cases:
  "getBlogPosts E q db = serverError ''Error fetching blog posts''
   \<or> (\<exists>rx pg lm. getBlogPosts E q db = listReply E q rx pg lm db)"
  by (auto simp: getBlogPosts_def Let_def split: option.splits)

lemma getBlogPosts_published:
  assumes "payload (getBlogPosts E q db) = Posts n t tp cp ps fp"
  shows "(\<forall>p \<in> set ps. status p = Published)
       \<and> (\<forall>p \<in> set (case fp of None \<Rightarrow> [] | Some f \<Rightarrow> f). status p = Published)"
  using getBlogPosts_cases [of E q db] assms listReply_published
  by (auto simp: serverError_def)

lemma updateFirst_unique:
  assumes d: "distinct (map doc_id db)" and ex: "old \<in> set db"
  shows "updateFirst (\<lambda>p. doc_id p = doc_id old) f db
       = map (\<lambda>p. if doc_id p = doc_id old then f old else p) db"
proof -
  have s: "\<And>p q. p \<in> set db \<Longrightarrow> q \<in> set db \<Longrightarrow> doc_id p = doc_id q \<Longrightarrow> p = q"
    using d by (meson distinct_map inj_onD)
  have "updateFirst (\<lambda>p. doc_id p = doc_id old) f db
      = map (\<lambda>p. if doc_id p = doc_id old then f p else p) db"
    by (rule updateFirst_by_id [OF d])
  also have "\<dots> = map (\<lambda>p. if doc_id p = doc_id old then f old else p) db"
    by (rule map_cong [OF refl]) (use s [OF _ ex] in auto)
  finally show ?thesis .
qed

lemma savedDoc_fields [simp]:
  "status (savedDoc now p) = status p" "slug (savedDoc now p) = slug p"
  "views (savedDoc now p) = views p" "likes (savedDoc now p) = likes p"
  "doc_id (savedDoc now p) = doc_id p"
  by (simp_all add: savedDoc_def preSave_def Let_def)

lemma getBlogPost_200:
  assumes g: "getBlogPost E now s db = (Reply 200 (OnePost post rel), db')"
  shows "\<exists>old. findOne (\<lambda>p. slug p = s \<and> status p = Published) db = Some old
           \<and> post = savedDoc now (old\<lparr>views := views old + 1\<rparr>)
           \<and> db' = writeBack post now db
           \<and> rel = map hideContent (limitTo 3 (sortBy newestFirst (filter (relatedTo post) db')))"
proof (cases "findOne (\<lambda>p. slug p = s \<and> status p = Published) db")
  case None
  with g show ?thesis by (simp add: getBlogPost_def notFound_def)
next
  case (Some old)
  show ?thesis
  proof (cases "validates E (old\<lparr>views := views old + 1\<rparr>)")
    case False
    then have "incrementViews E now old db = Inl (Error ''ValidationError'' ''BlogPost validation failed'')"
      by (simp add: incrementViews_def save_def)
    with g Some show ?thesis
      by (simp add: getBlogPost_def notFound_def serverError_def)
  next
    case True
    define D where "D = savedDoc now (old\<lparr>views := views old + 1\<rparr>)"
    define W where "W = writeBack D now db"
    define R where "R = map hideContent (limitTo 3 (sortBy newestFirst (filter (relatedTo D) W)))"
    have i: "incrementViews E now old db = Inr (D, W)"
      using True by (simp add: incrementViews_def save_def Let_def D_def W_def)
    have "getBlogPost E now s db = (Reply 200 (OnePost D R), W)"
      by (simp add: getBlogPost_def Some i R_def)
    with g have "(Reply 200 (OnePost post rel), db') = (Reply 200 (OnePost D R), W)"
      by (rule trans [OF sym])
    then have p: "post = D" and r: "rel = R" and w: "db' = W"
      by simp_all
    show ?thesis
      unfolding p r w
    proof (intro exI conjI)
      show "findOne (\<lambda>p. slug p = s \<and> status p = Published) db = Some old" by (rule Some)
      show "D = savedDoc now (old\<lparr>views := views old + 1\<rparr>)" by (rule D_def)
      show "W = writeBack D now db" by (rule W_def)
      show "R = map hideContent (limitTo 3 (sortBy newestFirst (filter (relatedTo D) W)))"
        by (rule R_def)
    qed
  qed
qed

lemma getBlogPosts_noQuery:
  "getBlogPosts sampleEnv noQuery [samplePost, draftPost]
     = Reply 200 (Posts 1 1 (Some 1) (Some 1) [hideContent samplePost] (Some [samplePost]))"
  by code_simp

text \<open>
  Claim C7 (the public views expose published posts only). Whatever the page, limit,
  search, tag, category, featured and sort parameters, every post in the list that
  \<open>getBlogPosts\<close> answers with is published, and so is every post of its featured list.
  \<open>getBlogPost\<close> answers 404 and leaves the store alone when no stored post has the
  requested slug together with the status \<open>published\<close>; when it answers 200, the post it
  returns has that slug and is published, and so are the related posts.
\<close>

theorem public_reads_only_published:
  "(\<forall>n t tp cp ps fp. payload (getBlogPosts E q db) = Posts n t tp cp ps fp \<longrightarrow>
       (\<forall>p \<in> set ps. status p = Published)
       \<and> (\<forall>p \<in> set (case fp of None \<Rightarrow> [] | Some f \<Rightarrow> f). status p = Published))
   \<and> ((\<forall>p \<in> set db. slug p = s \<longrightarrow> status p \<noteq> Published) \<longrightarrow>
         getBlogPost E now s db = (Reply 404 (Failure ''Blog post not found''), db))
   \<and> (\<forall>post rel db'. getBlogPost E now s db = (Reply 200 (OnePost post rel), db') \<longrightarrow>
         slug post = s \<and> status post = Published \<and> (\<forall>p \<in> set rel. status p = Published))"
proof (intro conjI allI impI)
  fix n t tp cp ps fp
  assume "payload (getBlogPosts E q db) = Posts n t tp cp ps fp"
  from getBlogPosts_published [OF this]
  show "\<forall>p \<in> set ps. status p = Published"
    and "\<forall>p \<in> set (case fp of None \<Rightarrow> [] | Some f \<Rightarrow> f). status p = Published"
    by simp_all
next
  assume "\<forall>p \<in> set db. slug p = s \<longrightarrow> status p \<noteq> Published"
  then have "findOne (\<lambda>p. slug p = s \<and> status p = Published) db = None"
    by (auto simp: findOne_def find_None_iff)
  then show "getBlogPost E now s db = (Reply 404 (Failure ''Blog post not found''), db)"
    by (simp add: getBlogPost_def notFound_def)
next
  fix post rel db'
  assume "getBlogPost E now s db = (Reply 200 (OnePost post rel), db')"
  from getBlogPost_200 [OF this] obtain old where
    old: "findOne (\<lambda>p. slug p = s \<and> status p = Published) db = Some old"
    and post: "post = savedDoc now (old\<lparr>views := views old + 1\<rparr>)"
    and rel: "rel = map hideContent (limitTo 3 (sortBy newestFirst (filter (relatedTo post) db')))"
    by blast
  from old have o: "slug old = s" "status old = Published"
    by (auto simp: findOne_def find_Some_iff)
  show "slug post = s" "status post = Published"
    using o by (simp_all add: post)
  show "\<forall>p \<in> set rel. status p = Published"
  proof
    fix p assume "p \<in> set rel"
    then obtain d where d: "p = hideContent d"
      "d \<in> set (limitTo 3 (sortBy newestFirst (filter (relatedTo post) db')))"
      unfolding rel by (auto simp del: set_sortBy)
    from d(2) have "d \<in> set (sortBy newestFirst (filter (relatedTo post) db'))"
      by (rule in_set_limitToD)
    then have "relatedTo post d" by simp
    then show "status p = Published" by (simp add: d(1) relatedTo_def)
  qed
qed

theorem public_reads_only_published_witness:
  "payload (getBlogPosts sampleEnv noQuery [samplePost, draftPost])
     = Posts 1 1 (Some 1) (Some 1) [hideContent samplePost] (Some [samplePost])
   \<and> status samplePost = Published
   \<and> getBlogPost sampleEnv 1705708900000 ''notes-in-progress'' [samplePost, draftPost]
       = (Reply 404 (Failure ''Blog post not found''), [samplePost, draftPost])"
proof -
  have h: "\<forall>p \<in> set [samplePost, draftPost]. slug p = ''notes-in-progress'' \<longrightarrow> status p \<noteq> Published"
    by (simp add: samplePost_def draftPost_def)
  have l: "payload (getBlogPosts sampleEnv noQuery [samplePost, draftPost])
     = Posts 1 1 (Some 1) (Some 1) [hideContent samplePost] (Some [samplePost])"
    by (simp add: getBlogPosts_noQuery)
  from public_reads_only_published [of sampleEnv noQuery "[samplePost, draftPost]"
      "''notes-in-progress''" 1705708900000] h l
  show ?thesis by auto
qed

lemma writeBack_unique:
  assumes "distinct (map doc_id db)" "old \<in> set db" "doc_id d = doc_id old"
  shows "writeBack d now db
       = map (\<lambda>p. if doc_id p = doc_id old
                   then old\<lparr> views := views d, metaTitle := metaTitle d,
                              metaDescription := metaDescription d, excerpt := excerpt d,
                              updatedAt := now \<rparr>
                   else p) db"
  unfolding writeBack_def assms(3) by (rule updateFirst_unique [OF assms(1,2)])

text \<open>
  Claim C8 (a successful view adds exactly 1 to the views of that post and changes no
  other counter). In a store whose keys are pairwise different, when \<open>getBlogPost\<close>
  answers 200 for a slug, the post \<open>old\<close> that \<open>findOne\<close> returned for that slug is
  returned with \<open>views old + 1\<close>; in the store its \<open>views\<close> went up by exactly 1, the
  \<open>views\<close> of every other post and the \<open>likes\<close> of every post are as before, and no
  post was added or removed.
\<close>

theorem view_counts_once:
  assumes "distinct (map doc_id db)"
    and "getBlogPost E now s db = (Reply 200 (OnePost post rel), db')"
  shows "\<exists>old. findOne (\<lambda>p. slug p = s \<and> status p = Published) db = Some old
           \<and> views post = views old + 1
           \<and> likes post = likes old
           \<and> map views db' = map (\<lambda>p. if doc_id p = doc_id old then views p + 1 else views p) db
           \<and> map likes db' = map likes db
           \<and> map doc_id db' = map doc_id db"
proof -
  from getBlogPost_200 [OF assms(2)] obtain old where
    old: "findOne (\<lambda>p. slug p = s \<and> status p = Published) db = Some old"
    and post: "post = savedDoc now (old\<lparr>views := views old + 1\<rparr>)"
    and db': "db' = writeBack post now db"
    by blast
  from old have o: "old \<in> set db" by (auto simp: findOne_def find_Some_iff)
  have s: "\<And>p. p \<in> set db \<Longrightarrow> doc_id p = doc_id old \<Longrightarrow> p = old"
    using assms(1) o by (meson distinct_map inj_onD)
  have i: "doc_id post = doc_id old" by (simp add: post)
  have w: "db' = map (\<lambda>p. if doc_id p = doc_id old
                   then old\<lparr> views := views post, metaTitle := metaTitle post,
                              metaDescription := metaDescription post, excerpt := excerpt post,
                              updatedAt := now \<rparr>
                   else p) db"
    unfolding db' by (rule writeBack_unique [OF assms(1) o i])
  have v: "views post = views old + 1" "likes post = likes old" by (simp_all add: post)
  have "map views db' = map (\<lambda>p. if doc_id p = doc_id old then views p + 1 else views p) db"
    unfolding w using s v by (auto simp: o_def)
  moreover have "map likes db' = map likes db"
    unfolding w using s by (auto simp: o_def)
  moreover have "map doc_id db' = map doc_id db"
    unfolding w using s by (auto simp: o_def)
  ultimately show ?thesis using old v by blast
qed

lemma findOne_sample_slug:
  "findOne (\<lambda>p. slug p = ''getting-started-with-react-and-typescript'' \<and> status p = Published)
     [samplePost, draftPost] = Some samplePost"
  by (simp add: findOne_def samplePost_def)

lemma valid_sample_viewed: "validates sampleEnv (samplePost\<lparr>views := views samplePost + 1\<rparr>)"
  by code_simp

lemma getBlogPost_sample:
  "getBlogPost sampleEnv now ''getting-started-with-react-and-typescript'' [samplePost, draftPost]
     = (Reply 200
          (OnePost (savedDoc now (samplePost\<lparr>views := views samplePost + 1\<rparr>))
             (map hideContent (limitTo 3 (sortBy newestFirst
                (filter (relatedTo (savedDoc now (samplePost\<lparr>views := views samplePost + 1\<rparr>)))
                   (writeBack (savedDoc now (samplePost\<lparr>views := views samplePost + 1\<rparr>)) now
                      [samplePost, draftPost])))))),
        writeBack (savedDoc now (samplePost\<lparr>views := views samplePost + 1\<rparr>)) now
          [samplePost, draftPost])"
  using valid_sample_viewed
  by (simp add: getBlogPost_def findOne_sample_slug incrementViews_def save_def Let_def
      del: sampleEnv_simps)

theorem view_counts_once_witness:
  "map views (snd (getBlogPost sampleEnv 1705708900000 ''getting-started-with-react-and-typescript''
                     [samplePost, draftPost])) = [8, 0]
   \<and> map likes (snd (getBlogPost sampleEnv 1705708900000 ''getting-started-with-react-and-typescript''
                     [samplePost, draftPost])) = [3, 0]
   \<and> code (fst (getBlogPost sampleEnv 1705708900000 ''getting-started-with-react-and-typescript''
                     [samplePost, draftPost])) = 200"
proof -
  have d: "distinct (map doc_id [samplePost, draftPost])"
    by (simp add: samplePost_def draftPost_def)
  from view_counts_once [OF d getBlogPost_sample [of 1705708900000]]
  have "map views (snd (getBlogPost sampleEnv 1705708900000 ''getting-started-with-react-and-typescript''
                     [samplePost, draftPost]))
          = map (\<lambda>p. if doc_id p = doc_id samplePost then views p + 1 else views p) [samplePost, draftPost]
      \<and> map likes (snd (getBlogPost sampleEnv 1705708900000 ''getting-started-with-react-and-typescript''
                     [samplePost, draftPost])) = map likes [samplePost, draftPost]"
    unfolding getBlogPost_sample findOne_sample_slug by auto
  then show ?thesis
    by (simp add: getBlogPost_sample) (simp add: samplePost_def draftPost_def)
qed

section \<open>The admin update\<close>

lemma updateData_frame:
  "updateData b = Inr f \<Longrightarrow> (f p)\<lparr>featured := featured p, status := status p\<rparr> = p"
  by (auto simp: updateData_def split: option.splits sum.splits)

lemma list_all2_updateFirst:
  assumes "\<And>p. R p p" "\<And>p. P p \<Longrightarrow> R p (g p)"
  shows "list_all2 R db (updateFirst P g db)"
  using assms by (induction db) (auto simp: list_all2_refl)

text \<open>
  Claim C10, as amended. For every request body, key parameter and store, after
  \<open>updateBlogPost\<close> every stored post agrees with what it was before on every path other
  than \<open>featured\<close>, \<open>status\<close> and the time stamp \<open>updatedAt\<close> that the schema option
  \<open>timestamps\<close> maintains, whatever else the body carries; and a post with another key
  than the requested one is unchanged altogether.
\<close>

theorem update_changes_featured_status_only:
  "list_all2 (\<lambda>p p'. p'\<lparr>featured := featured p, status := status p, updatedAt := updatedAt p\<rparr> = p
                      \<and> (castObjectId E idParam \<noteq> Some (doc_id p) \<longrightarrow> p' = p))
     db (snd (updateBlogPost E now idParam b db))"
proof -
  let ?R = "\<lambda>p p'. p'\<lparr>featured := featured p, status := status p, updatedAt := updatedAt p\<rparr> = p
                      \<and> (castObjectId E idParam \<noteq> Some (doc_id p) \<longrightarrow> p' = p)"
  have refl: "list_all2 ?R db db" by (simp add: list_all2_refl)
  show ?thesis
  proof (cases "validationOk b")
    case False
    then show ?thesis using refl by (simp add: updateBlogPost_def)
  next
    case True
    show ?thesis
    proof (cases "updateData b")
      case (Inl e)
      then show ?thesis using True refl by (simp add: updateBlogPost_def)
    next
      case (Inr f)
      show ?thesis
      proof (cases "castObjectId E idParam")
        case None
        then show ?thesis using True Inr refl by (simp add: updateBlogPost_def)
      next
        case (Some i)
        have u: "list_all2 ?R db (findByIdAndUpdate i f now db)"
          unfolding findByIdAndUpdate_def
        proof (rule list_all2_updateFirst)
          fix p :: post show "?R p p" by simp
        next
          fix p :: post assume "doc_id p = i"
          have "((f p)\<lparr>updatedAt := now\<rparr>)\<lparr>featured := featured p, status := status p, updatedAt := updatedAt p\<rparr>
                  = ((f p)\<lparr>featured := featured p, status := status p\<rparr>)\<lparr>updatedAt := updatedAt p\<rparr>"
            by simp
          also have "\<dots> = p" by (simp add: updateData_frame [OF Inr])
          finally show "?R p ((f p)\<lparr>updatedAt := now\<rparr>)"
            using Some \<open>doc_id p = i\<close> by simp
        qed
        show ?thesis
          using True Inr Some u refl
          by (simp add: updateBlogPost_def Let_def split: option.splits)
      qed
    qed
  qed
qed

lemma updateBlogPost_sample:
  "updateBlogPost sampleEnv 1705708900000 ''1'' sampleBody [samplePost, draftPost]
     = (Reply 200 (UpdatedPost (samplePost\<lparr>featured := False, updatedAt := 1705708900000\<rparr>)),
        [samplePost\<lparr>featured := False, updatedAt := 1705708900000\<rparr>, draftPost])"
  by code_simp

theorem update_changes_featured_status_only_witness:
  "snd (updateBlogPost sampleEnv 1705708900000 ''1'' sampleBody [samplePost, draftPost])
     = [samplePost\<lparr>featured := False, updatedAt := 1705708900000\<rparr>, draftPost]
   \<and> (samplePost\<lparr>featured := False, updatedAt := 1705708900000\<rparr>)
        \<lparr>featured := featured samplePost, status := status samplePost, updatedAt := updatedAt samplePost\<rparr>
       = samplePost"
  using update_changes_featured_status_only [of sampleEnv "''1''" "[samplePost, draftPost]"
      1705708900000 sampleBody]
  by (simp add: updateBlogPost_sample)

text \<open>
  Claim C10 as stated (nothing but \<open>featured\<close> and \<open>status\<close> changes) fails on
  \<open>updatedAt\<close>: the update of \<open>samplePost\<close> with the body \<open>sampleBody\<close> at time
  1705708900000 leaves the title alone, sets \<open>featured\<close>, and moves \<open>updatedAt\<close> from
  1705276800000 to 1705708900000.
\<close>

theorem update_touches_updatedAt:
  "snd (updateBlogPost sampleEnv 1705708900000 ''1'' sampleBody [samplePost])
     = [samplePost\<lparr>featured := False, updatedAt := 1705708900000\<rparr>]
   \<and> updatedAt samplePost = 1705276800000
   \<and> title (samplePost\<lparr>featured := False, updatedAt := 1705708900000\<rparr>) = title samplePost"
  by code_simp


text \<open>An array passes the rules of the route when its members do; the write cannot cast
  it, and the answer is 404 with the store as it was.\<close>

lemma update_array_status_not_found:
  "updateBlogPost E now idParam
     \<lparr> body_featured = None, body_status = Some (BArray [BString ''draft'']), body_rest = [] \<rparr> db
     = (notFound, db)"
  by (simp add: updateBlogPost_def validationOk_def ruleOk_def memberOk_def isStatusText_def
      statusOf_def updateData_def castStatus_def)

section \<open>Running the routine twice\<close>

lemma parse_clock:
  "parseMediumArticle nd now2 it
     = map_sum id (\<lambda>a. a\<lparr>art_lastSyncedAt := now2\<rparr>) (parseMediumArticle nd now1 it)"
  by (auto simp: parseMediumArticle_def parseBody_def Let_def split: sum.splits jsval.splits)

lemma setArticle_sync_fields [simp]:
  "publishedAt (setArticle m a au url d p) = d"
  "syncStatus (setArticle m a au url d p) = art_syncStatus a"
  "lastSyncedAt (setArticle m a au url d p) = art_lastSyncedAt a"
  by (simp_all add: setArticle_def)

lemma keepLocal_sync_fields [simp]:
  "publishedAt (keepLocal ex p) = publishedAt p" "syncStatus (keepLocal ex p) = syncStatus p"
  "lastSyncedAt (keepLocal ex p) = lastSyncedAt p"
  by (simp_all add: keepLocal_def)

lemma freshFrom_quiet: "freshFrom now a p \<Longrightarrow> \<not> needsUpdate now a p"
  by (simp add: freshFrom_def needsUpdate_def)

lemma freshFrom_dominates:
  assumes "freshFrom now a p" "needsUpdate now a ex" "\<not> needsUpdate now b ex"
  shows "\<not> needsUpdate now b p"
  using assms by (auto simp: freshFrom_def needsUpdate_def split: option.splits)

lemma find_map_same:
  "(\<And>p. p \<in> set db \<Longrightarrow> P (g p) = P p) \<Longrightarrow> List.find P (map g db) = map_option g (List.find P db)"
  by (induction db) auto

lemma find_map_other:
  "(\<And>p. p \<in> set db \<Longrightarrow> g p = p \<or> (\<not> P p \<and> \<not> P (g p))) \<Longrightarrow> List.find P (map g db) = List.find P db"
proof (induction db)
  case Nil
  show ?case by simp
next
  case (Cons h db)
  from Cons.prems [of h] have "g h = h \<or> (\<not> P h \<and> \<not> P (g h))" by simp
  moreover have "List.find P (map g db) = List.find P db"
    using Cons.IH Cons.prems by simp
  ultimately show ?case by auto
qed

text \<open>The store after an overwrite, seen through \<open>findOne\<close> by identifier.\<close>

lemma overwrite_lookup:
  assumes d: "distinct (map doc_id db)"
    and ex: "findOne (\<lambda>p. mediumId p = m) db = Some ex"
    and f: "castArticle m a = Inr f"
    and a: "art_syncStatus a = Synced" "art_lastSyncedAt a = now"
  defines "db' \<equiv> findByIdAndUpdate (doc_id ex) (\<lambda>p. keepLocal ex (f p)) now db"
  shows "\<exists>new. findOne (\<lambda>p. mediumId p = m) db' = Some new \<and> freshFrom now a new"
    and "m' \<noteq> m \<Longrightarrow> findOne (\<lambda>p. mediumId p = m') db' = findOne (\<lambda>p. mediumId p = m') db"
    and "map mediumId db' = map mediumId db" and "map doc_id db' = map doc_id db"
proof -
  have exs: "ex \<in> set db" "mediumId ex = m" using ex findOne_SomeD by blast+
  let ?new = "(keepLocal ex (f ex))\<lparr>updatedAt := now\<rparr>"
  let ?g = "\<lambda>p. if doc_id p = doc_id ex then ?new else p"
  have db': "db' = map ?g db"
    unfolding db'_def by (rule update_existing [OF d exs(1)])
  from castArticle_InrD [OF f] obtain au url t where
    t: "art_publishedAt a = Some t" "f = setArticle m a au url t" by blast
  have new: "mediumId ?new = m" "freshFrom now a ?new" "doc_id ?new = doc_id ex"
    using t a by (simp_all add: freshFrom_def)
  have same: "\<And>p. p \<in> set db \<Longrightarrow> doc_id p = doc_id ex \<Longrightarrow> p = ex"
    using same_doc [OF d _ exs(1)] by blast
  have "List.find (\<lambda>p. mediumId p = m) (map ?g db) = map_option ?g (List.find (\<lambda>p. mediumId p = m) db)"
    by (rule find_map_same) (use same exs(2) new(1) in auto)
  then have "findOne (\<lambda>p. mediumId p = m) db' = Some ?new"
    using ex by (simp add: db' findOne_def)
  with new(2) show "\<exists>new. findOne (\<lambda>p. mediumId p = m) db' = Some new \<and> freshFrom now a new"
    by blast
  have "map mediumId (map ?g db) = map mediumId db"
    unfolding map_map by (rule map_cong [OF refl]) (use same exs(2) new(1) in auto)
  then show "map mediumId db' = map mediumId db" by (simp add: db')
  have "map doc_id (map ?g db) = map doc_id db"
    unfolding map_map by (rule map_cong [OF refl]) (use new(3) in auto)
  then show "map doc_id db' = map doc_id db" by (simp add: db')
  assume "m' \<noteq> m"
  have "List.find (\<lambda>p. mediumId p = m') (map ?g db) = List.find (\<lambda>p. mediumId p = m') db"
    by (rule find_map_other) (use same exs(2) new(1) \<open>m' \<noteq> m\<close> in auto)
  then show "findOne (\<lambda>p. mediumId p = m') db' = findOne (\<lambda>p. mediumId p = m') db"
    by (simp add: db' findOne_def)
qed

lemma storable_cast:
  assumes "storable nd it" "parseMediumArticle nd now it = Inr a"
  shows "\<exists>f. castArticle m a = Inr f"
proof -
  from parse_clock [of nd 0 it now] assms(2)
  have "parseMediumArticle nd 0 it = Inr (a\<lparr>art_lastSyncedAt := 0\<rparr>)" by simp
  with assms(1) have "\<not> isl (castString (art_author a))" "\<not> isl (castString (art_mediumUrl a))"
    "art_publishedAt a \<noteq> None"
    by (simp_all add: storable_def)
  then show ?thesis
    by (cases "castString (art_author a)"; cases "castString (art_mediumUrl a)")
      (auto simp: castArticle_def castDate_def)
qed

lemma refersTo_iff:
  "parseMediumArticle nd now it = Inr a \<Longrightarrow> refersTo nd it p \<longleftrightarrow> art_mediumId a = Some (mediumId p)"
  using parse_clock [of nd 0 it now] by (simp add: refersTo_def)

lemma refersTo_key: "mediumId p = mediumId q \<Longrightarrow> refersTo nd it p = refersTo nd it q"
  by (simp add: refersTo_def split: sum.splits)

text \<open>What a round that returns can be, when \<open>create\<close> rejects every article and the
  store takes the values of the entry: nothing happens to the store and the entry is
  settled, or the post with the identifier of the entry is overwritten.\<close>

lemma round_cases:
  assumes d: "distinct (map doc_id db)"
    and V: "validates E = blogPostSchema_valid"
    and st: "\<forall>p \<in> set db. refersTo (newDate E) it p \<longrightarrow> storable (newDate E) it"
    and r: "syncItem E now it db = Inr (db', n, k)"
  shows "(db' = db \<and> n = 0 \<and> settled E now it db)
       \<or> (\<exists>a m ex f. parseMediumArticle (newDate E) now it = Inr a \<and> art_mediumId a = Some m
             \<and> m \<noteq> [] \<and> findOne (\<lambda>p. mediumId p = m) db = Some ex \<and> needsUpdate now a ex
             \<and> castArticle m a = Inr f
             \<and> db' = findByIdAndUpdate (doc_id ex) (\<lambda>p. keepLocal ex (f p)) now db)"
proof (cases "parseMediumArticle (newDate E) now it")
  case (Inl e)
  then have "syncAttempt E now it db = Inl e" "markFailed E now it db = db"
    by (simp_all add: syncAttempt_def markFailed_def)
  with syncItem_InrD [OF r] Inl show ?thesis by (simp add: settled_def)
next
  case (Inr a)
  show ?thesis
  proof (cases "art_mediumId a")
    case None
    with Inr have "syncAttempt E now it db = Inr (db, 0)" by (simp add: syncAttempt_def)
    with syncItem_InrD [OF r] Inr None show ?thesis by (simp add: settled_def)
  next
    case (Some m)
    show ?thesis
    proof (cases "m = []")
      case True
      with Inr Some have "syncAttempt E now it db = Inr (db, 0)" by (simp add: syncAttempt_def)
      with syncItem_InrD [OF r] Inr Some True show ?thesis
        by (simp add: settled_def split: option.splits)
    next
      case False
      show ?thesis
      proof (cases "findOne (\<lambda>p. mediumId p = m) db")
        case None
        obtain e where "create (validates E) now m a db = Inl e"
          unfolding V using create_rejected by blast
        with Inr Some False None have att: "syncAttempt E now it db = Inl e"
          by (simp add: syncAttempt_def)
        have "markFailed E now it db = db"
          using Inr Some False None
          by (simp add: markFailed_def updateFirst_none findOne_None_iff)
        with syncItem_InrD [OF r] att Inr Some None show ?thesis by (simp add: settled_def)
      next
        case ex: (Some ex)
        have exs: "ex \<in> set db" "mediumId ex = m" using ex findOne_SomeD by blast+
        then have "refersTo (newDate E) it ex" using Inr Some by (simp add: refersTo_iff)
        with st exs(1) have "storable (newDate E) it" by blast
        from storable_cast [OF this Inr] obtain f where f: "castArticle m a = Inr f" by blast
        note att = syncAttempt_existing [OF Inr Some False ex]
        show ?thesis
        proof (cases "needsUpdate now a ex")
          case True
          with att f have "syncAttempt E now it db
                = Inr (findByIdAndUpdate (doc_id ex) (\<lambda>p. keepLocal ex (f p)) now db, 1)"
            by simp
          with syncItem_InrD [OF r]
          have "db' = findByIdAndUpdate (doc_id ex) (\<lambda>p. keepLocal ex (f p)) now db" by simp
          with Inr Some False ex True f show ?thesis by blast
        next
          case nu: False
          with att have "syncAttempt E now it db = Inr (db, 0)" by simp
          with syncItem_InrD [OF r] Inr Some ex nu show ?thesis by (simp add: settled_def)
        qed
      qed
    qed
  qed
qed

text \<open>A round for a settled entry leaves the store as it is and syncs nothing.\<close>

lemma settled_round:
  assumes V: "validates E = blogPostSchema_valid"
    and s: "settled E now x db"
    and r: "syncItem E now x db = Inr (db', n, k)"
  shows "db' = db \<and> n = 0"
proof (cases "parseMediumArticle (newDate E) now x")
  case (Inl e)
  then have "syncAttempt E now x db = Inl e" "markFailed E now x db = db"
    by (simp_all add: syncAttempt_def markFailed_def)
  with syncItem_InrD [OF r] show ?thesis by simp
next
  case (Inr a)
  show ?thesis
  proof (cases "art_mediumId a")
    case None
    with Inr have "syncAttempt E now x db = Inr (db, 0)" by (simp add: syncAttempt_def)
    with syncItem_InrD [OF r] show ?thesis by simp
  next
    case (Some m)
    show ?thesis
    proof (cases "m = []")
      case True
      with Inr Some have "syncAttempt E now x db = Inr (db, 0)" by (simp add: syncAttempt_def)
      with syncItem_InrD [OF r] show ?thesis by simp
    next
      case False
      show ?thesis
      proof (cases "findOne (\<lambda>p. mediumId p = m) db")
        case None
        obtain e where "create (validates E) now m a db = Inl e"
          unfolding V using create_rejected by blast
        with Inr Some False None have att: "syncAttempt E now x db = Inl e"
          by (simp add: syncAttempt_def)
        have "markFailed E now x db = db"
          using Inr Some False None
          by (simp add: markFailed_def updateFirst_none findOne_None_iff)
        with syncItem_InrD [OF r] att show ?thesis by simp
      next
        case ex: (Some ex)
        with s Inr Some False have "\<not> needsUpdate now a ex" by (simp add: settled_def)
        with syncAttempt_existing [OF Inr Some False ex]
        have "syncAttempt E now x db = Inr (db, 0)" by simp
        with syncItem_InrD [OF r] show ?thesis by simp
      qed
    qed
  qed
qed

text \<open>A round leaves its own entry settled, and every entry that was settled before.\<close>

lemma round_settles:
  assumes d: "distinct (map doc_id db)"
    and V: "validates E = blogPostSchema_valid"
    and st: "\<forall>p \<in> set db. refersTo (newDate E) it p \<longrightarrow> storable (newDate E) it"
    and r: "syncItem E now it db = Inr (db', n, k)"
  shows "settled E now it db'"
    and "settled E now x db \<Longrightarrow> settled E now x db'"
    and "map mediumId db' = map mediumId db"
    and "distinct (map doc_id db')"
proof -
  from round_cases [OF d V st r]
  have "settled E now it db' \<and> (settled E now x db \<longrightarrow> settled E now x db')
        \<and> map mediumId db' = map mediumId db \<and> map doc_id db' = map doc_id db"
  proof (elim disjE exE conjE)
    assume "db' = db" "settled E now it db"
    then show ?thesis by simp
  next
    fix a m ex f
    assume a: "parseMediumArticle (newDate E) now it = Inr a" "art_mediumId a = Some m"
      and m: "m \<noteq> []"
      and ex: "findOne (\<lambda>p. mediumId p = m) db = Some ex"
      and nu: "needsUpdate now a ex"
      and f: "castArticle m a = Inr f"
      and db': "db' = findByIdAndUpdate (doc_id ex) (\<lambda>p. keepLocal ex (f p)) now db"
    note ps = parse_sync_fields [OF a(1)]
    from overwrite_lookup(1) [OF d ex f] ps
    obtain new where new: "findOne (\<lambda>p. mediumId p = m) db' = Some new" "freshFrom now a new"
      unfolding db' by blast
    have own: "settled E now it db'"
      using a new freshFrom_quiet by (simp add: settled_def)
    have other: "settled E now x db'" if sx: "settled E now x db"
    proof (cases "parseMediumArticle (newDate E) now x")
      case (Inl e)
      then show ?thesis by (simp add: settled_def)
    next
      case (Inr b)
      show ?thesis
      proof (cases "art_mediumId b")
        case None
        with Inr show ?thesis by (simp add: settled_def)
      next
        case (Some mx)
        show ?thesis
        proof (cases "mx = m")
          case True
          from sx Inr Some True ex m have "\<not> needsUpdate now b ex" by (simp add: settled_def)
          from freshFrom_dominates [OF new(2) nu this] Inr Some True new(1)
          show ?thesis by (simp add: settled_def)
        next
          case False
          from overwrite_lookup(2) [OF d ex f _ _ False] ps
          have "findOne (\<lambda>p. mediumId p = mx) db' = findOne (\<lambda>p. mediumId p = mx) db"
            unfolding db' by blast
          with sx Inr Some show ?thesis by (simp add: settled_def)
        qed
      qed
    qed
    from overwrite_lookup(3,4) [OF d ex f] ps
    have "map mediumId db' = map mediumId db" "map doc_id db' = map doc_id db"
      unfolding db' by blast+
    with own other show ?thesis by blast
  qed
  then show "settled E now it db'" "settled E now x db \<Longrightarrow> settled E now x db'"
    "map mediumId db' = map mediumId db" "distinct (map doc_id db')"
    using d by simp_all
qed

text \<open>When \<open>create\<close> rejects every article, no round changes the stored identifiers.\<close>

lemma syncItem_ids:
  assumes d: "distinct (map doc_id db)"
    and V: "validates E = blogPostSchema_valid"
    and r: "syncItem E now it db = Inr (db', n, k)"
  shows "map mediumId db' = map mediumId db \<and> map doc_id db' = map doc_id db"
  using syncItem_keys [OF d r]
proof
  assume "\<exists>doc. db' = db @ [doc] \<and> doc_id doc = newId db
              \<and> mediumId doc \<notin> set (map mediumId db)"
  then obtain doc where doc: "db' = db @ [doc]" by blast
  have nc: "\<And>m a dbx. create (validates E) now m a db \<noteq> Inr dbx"
    unfolding V using create_rejected [of now _ _ db] by (metis sum.distinct(1))
  have "length db' = length db"
    using r nc
    by (auto simp: syncItem_def syncAttempt_def markFailed_def findByIdAndUpdate_def
        split: sum.splits option.splits if_splits)
  with doc show ?thesis by simp
qed simp

lemma syncLoop_ids:
  "distinct (map doc_id db) \<Longrightarrow> validates E = blogPostSchema_valid \<Longrightarrow>
     syncLoop E now its (db, n, k) = (e, db', n', k') \<Longrightarrow>
     map mediumId db' = map mediumId db \<and> map doc_id db' = map doc_id db"
proof (induction its arbitrary: db n k)
  case Nil
  then show ?case by simp
next
  case (Cons it its)
  show ?case
  proof (cases "syncItem E now it db")
    case (Inl x)
    with Cons.prems show ?thesis by simp
  next
    case (Inr r)
    obtain db1 n1 k1 where s: "syncItem E now it db = Inr (db1, n1, k1)"
      using Inr by (cases r) simp
    note i = syncItem_ids [OF Cons.prems(1,2) s]
    then have "distinct (map doc_id db1)" using Cons.prems(1) by simp
    from Cons.IH [OF this Cons.prems(2)] Cons.prems(3) s i show ?thesis by simp
  qed
qed

lemma first_run_settles:
  "distinct (map doc_id db) \<Longrightarrow> validates E = blogPostSchema_valid \<Longrightarrow>
     \<forall>it \<in> set its. \<forall>p \<in> set db. refersTo (newDate E) it p \<longrightarrow> storable (newDate E) it \<Longrightarrow>
     \<forall>x \<in> S. settled E now x db \<Longrightarrow>
     syncLoop E now its (db, n, k) = (e, db', n', k') \<Longrightarrow>
     \<forall>x \<in> S \<union> set (takeWhile hasTitleText its). settled E now x db'"
proof (induction its arbitrary: db n k S)
  case Nil
  then show ?case by simp
next
  case (Cons it its)
  show ?case
  proof (cases "syncItem E now it db")
    case (Inl x)
    then have "\<not> hasTitleText it" by (simp add: syncItem_throws_iff hasTitleText_def)
    with Inl Cons.prems show ?thesis by simp
  next
    case (Inr r)
    obtain db1 n1 k1 where s: "syncItem E now it db = Inr (db1, n1, k1)"
      using Inr by (cases r) simp
    have t: "hasTitleText it"
    proof (rule ccontr)
      assume "\<not> hasTitleText it"
      then obtain x where "toText (item_title it) = Inl x"
        by (cases "toText (item_title it)") (simp_all add: hasTitleText_def)
      then have "syncItem E now it db = Inl x" by (simp add: syncItem_throws_iff)
      with s show False by simp
    qed
    have st: "\<forall>p \<in> set db. refersTo (newDate E) it p \<longrightarrow> storable (newDate E) it"
      using Cons.prems(3) by simp
    note rs = round_settles [OF Cons.prems(1,2) st s]
    have st1: "\<forall>y \<in> set its. \<forall>p \<in> set db1. refersTo (newDate E) y p \<longrightarrow> storable (newDate E) y"
    proof (intro ballI impI)
      fix y p
      assume y: "y \<in> set its" and p: "p \<in> set db1" and ref: "refersTo (newDate E) y p"
      from p have "mediumId p \<in> set (map mediumId db1)" by simp
      then have "mediumId p \<in> set (map mediumId db)" using rs(3) by simp
      then obtain q where q: "q \<in> set db" "mediumId q = mediumId p" by auto
      with ref have "refersTo (newDate E) y q" using refersTo_key [of q p] by simp
      with Cons.prems(3) y q(1) show "storable (newDate E) y" by auto
    qed
    have S1: "\<forall>x \<in> insert it S. settled E now x db1"
      using rs(1) rs(2) Cons.prems(4) by blast
    from Cons.prems(5) s have l: "syncLoop E now its (db1, n + n1, k + k1) = (e, db', n', k')"
      by simp
    from Cons.IH [OF rs(4) Cons.prems(2) st1 S1 l] t show ?thesis by simp
  qed
qed

lemma settled_later:
  assumes s: "settled E now1 x db"
    and fresh: "\<forall>p \<in> set db. refersTo (newDate E) x p
                  \<longrightarrow> now2 - lastSyncedAt p \<le> 24 * 60 * 60 * 1000"
  shows "settled E now2 x db"
proof (cases "parseMediumArticle (newDate E) now1 x")
  case (Inl e)
  with parse_clock [of "newDate E" now2 x now1] show ?thesis by (simp add: settled_def)
next
  case (Inr a)
  let ?a = "a\<lparr>art_lastSyncedAt := now2\<rparr>"
  have a2: "parseMediumArticle (newDate E) now2 x = Inr ?a"
    using parse_clock [of "newDate E" now2 x now1] Inr by simp
  show ?thesis
  proof (cases "art_mediumId a")
    case None
    with a2 show ?thesis by (simp add: settled_def)
  next
    case (Some m)
    show ?thesis
    proof (cases "findOne (\<lambda>p. mediumId p = m) db")
      case None
      with a2 Some show ?thesis by (simp add: settled_def)
    next
      case ex: (Some ex)
      have exs: "ex \<in> set db" "mediumId ex = m" using ex findOne_SomeD by blast+
      then have "refersTo (newDate E) x ex" using Inr Some by (simp add: refersTo_iff)
      with fresh exs(1) have "now2 - lastSyncedAt ex \<le> 24 * 60 * 60 * 1000" by blast
      moreover from s Inr Some ex have "m = [] \<or> \<not> needsUpdate now1 a ex"
        by (simp add: settled_def)
      ultimately have "m = [] \<or> \<not> needsUpdate now2 ?a ex"
        by (auto simp: needsUpdate_def)
      with a2 Some ex show ?thesis by (simp add: settled_def)
    qed
  qed
qed

lemma quiet_loop:
  "validates E = blogPostSchema_valid \<Longrightarrow>
     \<forall>x \<in> set (takeWhile hasTitleText its). settled E now x db \<Longrightarrow>
     \<exists>e k'. syncLoop E now its (db, n, k) = (e, db, n, k')"
proof (induction its arbitrary: n k)
  case Nil
  show ?case by simp
next
  case (Cons it its)
  show ?case
  proof (cases "syncItem E now it db")
    case (Inl x)
    then show ?thesis by simp
  next
    case (Inr r)
    obtain db1 n1 k1 where s: "syncItem E now it db = Inr (db1, n1, k1)"
      using Inr by (cases r) simp
    have t: "hasTitleText it"
    proof (rule ccontr)
      assume "\<not> hasTitleText it"
      then obtain x where "toText (item_title it) = Inl x"
        by (cases "toText (item_title it)") (simp_all add: hasTitleText_def)
      then have "syncItem E now it db = Inl x" by (simp add: syncItem_throws_iff)
      with s show False by simp
    qed
    with Cons.prems(2) have "settled E now it db"
      "\<forall>x \<in> set (takeWhile hasTitleText its). settled E now x db" by simp_all
    with settled_round [OF Cons.prems(1) _ s] Cons.IH [OF Cons.prems(1), of n "k + k1"] s
    show ?thesis by simp
  qed
qed

text \<open>
  Claim C2, as amended. Start from a store whose keys are pairwise different and run
  \<open>syncArticles\<close>, not busy, on a feed; the validation is that of the schema. Run it
  again on the same answer of the feed parser, and let every post that an entry of the
  feed refers to have been synced not more than 24 hours before the second run, and the
  store take the values of every such entry (a valid date; author and link strings or
  absent). Then the second run returns a result with \<open>syncedCount\<close> 0 and leaves the
  store identical: no post is added or removed, and no path of any post changes,
  \<open>views\<close>, \<open>likes\<close> and \<open>featured\<close> included. Entries for posts that are not stored, which
  \<open>create\<close> rejects in both runs, and entries that do not parse are covered.
\<close>

theorem second_run_changes_nothing:
  assumes "distinct (map doc_id db)"
    and "validates E = blogPostSchema_valid"
    and "\<not> syncInProgress svc"
    and "fetchMediumArticles response = Inr its"
    and "syncArticles E now1 response svc db = (r1, svc1, db1)"
    and "\<forall>it \<in> set its. \<forall>p \<in> set db1. refersTo (newDate E) it p
            \<longrightarrow> storable (newDate E) it \<and> now2 - lastSyncedAt p \<le> 24 * 60 * 60 * 1000"
  shows "\<exists>r2. syncArticles E now2 response svc1 db1 = (Inr r2, svc1, db1)
           \<and> syncedCount r2 = Some 0"
proof -
  note V = assms(2) and its = assms(4)
  obtain e dbx n k where l: "syncLoop E now1 its (db, 0, 0) = (e, dbx, n, k)"
    by (cases "syncLoop E now1 its (db, 0, 0)")
  from assms(3,5) its l have r: "db1 = dbx" "svc1 = svc\<lparr>syncInProgress := False\<rparr>"
    by (cases e; auto simp: syncArticles_def syncBody_def)+
  from syncLoop_ids [OF assms(1) V l] r(1)
  have ids: "map mediumId db1 = map mediumId db" by simp
  have st: "\<forall>it \<in> set its. \<forall>p \<in> set db. refersTo (newDate E) it p \<longrightarrow> storable (newDate E) it"
  proof (intro ballI impI)
    fix it p
    assume it: "it \<in> set its" and p: "p \<in> set db" and ref: "refersTo (newDate E) it p"
    from p have "mediumId p \<in> set (map mediumId db1)" unfolding ids by simp
    then obtain q where q: "q \<in> set db1" "mediumId q = mediumId p" by auto
    with ref have "refersTo (newDate E) it q" using refersTo_key [of q p] by simp
    with assms(6) it q(1) show "storable (newDate E) it" by blast
  qed
  have "\<forall>x \<in> {} \<union> set (takeWhile hasTitleText its). settled E now1 x db1"
    unfolding r(1) by (rule first_run_settles [OF assms(1) V st _ l]) simp
  moreover have "\<And>x. x \<in> set (takeWhile hasTitleText its) \<Longrightarrow> x \<in> set its"
    by (rule set_takeWhileD [THEN conjunct1])
  ultimately have "\<forall>x \<in> set (takeWhile hasTitleText its). settled E now2 x db1"
    using settled_later assms(6) by blast
  from quiet_loop [OF V this, of 0 0] obtain e2 k2 where
    "syncLoop E now2 its (db1, 0, 0) = (e2, db1, 0, k2)" by blast
  then show ?thesis
    using its r(2) by (cases e2) (simp_all add: syncArticles_def syncBody_def)
qed

lemma first_run_feedTwo:
  "syncArticles sampleEnv 1705708900000 feedTwo idle [samplePost]
     = (Inr \<lparr> success = True, message = None, error = None, syncedCount = Some 1,
              errorCount = Some 1, totalProcessed = Some 2 \<rparr>,
        idle, [syncedPost 1705708900000])"
proof -
  have "syncLoop sampleEnv 1705708900000 [entryNew, sampleEntry] ([samplePost], 0, 0)
          = (None, [syncedPost 1705708900000], 1, 1)"
    by (simp add: syncItem_entryNew syncItem_sampleEntry)
  then show ?thesis
    by (simp add: syncArticles_def syncBody_def fetchMediumArticles_def feedTwo_def idle_def
        del: syncLoop.simps)
qed

theorem second_run_changes_nothing_witness:
  "syncArticles sampleEnv 1705708900000 feedTwo idle [samplePost]
     = (Inr \<lparr> success = True, message = None, error = None, syncedCount = Some 1,
              errorCount = Some 1, totalProcessed = Some 2 \<rparr>,
        idle, [syncedPost 1705708900000])
   \<and> snd (syncArticles sampleEnv 1705712500000 feedTwo idle [syncedPost 1705708900000])
       = (idle, [syncedPost 1705708900000])
   \<and> map_sum id syncedCount
        (fst (syncArticles sampleEnv 1705712500000 feedTwo idle [syncedPost 1705708900000]))
       = Inr (Some 0)"
proof -
  have h1: "distinct (map doc_id [samplePost])" by simp
  have h2: "validates sampleEnv = blogPostSchema_valid" by simp
  have h3: "\<not> syncInProgress idle" by (simp add: idle_def)
  have h4: "fetchMediumArticles feedTwo = Inr [entryNew, sampleEntry]"
    by (simp add: fetchMediumArticles_def feedTwo_def)
  have r1: "\<not> refersTo (newDate sampleEnv) entryNew (syncedPost 1705708900000)"
    by (simp add: refersTo_def parse_entryNew articleNew_id syncedPost_def samplePost_def)
  have r2: "storable (newDate sampleEnv) sampleEntry"
    by (simp add: storable_def parse_sampleEntry sampleArticle_def castString_def)
  have h6: "\<forall>it \<in> set [entryNew, sampleEntry]. \<forall>p \<in> set [syncedPost 1705708900000].
              refersTo (newDate sampleEnv) it p
                \<longrightarrow> storable (newDate sampleEnv) it
                    \<and> 1705712500000 - lastSyncedAt p \<le> 24 * 60 * 60 * 1000"
    using r1 r2 by (simp add: syncedPost_def)
  from second_run_changes_nothing [OF h1 h2 h3 h4 first_run_feedTwo h6]
  show ?thesis by (auto simp: first_run_feedTwo)
qed

lemma syncItem_sameDate:
  "syncItem sampleEnv 1705280400000 entrySameDate [samplePost] = Inr ([samplePost], 0, 0)"
  "syncItem sampleEnv 1705370400000 entrySameDate [samplePost]
     = Inr ([(syncedPost 1705370400000)\<lparr>publishedAt := 1705276800000\<rparr>], 1, 0)"
  "syncItem sampleEnv 1705284000000 entrySameDate
       [samplePost\<lparr> syncStatus := Failed, lastSyncedAt := 1705280400000,
                    updatedAt := 1705280400000 \<rparr>]
     = Inr ([(syncedPost 1705284000000)\<lparr>publishedAt := 1705276800000\<rparr>], 1, 0)"
  by code_simp+

lemma syncItem_entryBadAuthor:
  "syncItem sampleEnv 1705280400000 entryBadAuthor [samplePost]
     = Inr ([samplePost\<lparr> syncStatus := Failed, lastSyncedAt := 1705280400000,
                          updatedAt := 1705280400000 \<rparr>], 0, 1)"
  "syncItem sampleEnv 1705284000000 entryBadAuthor
       [(syncedPost 1705284000000)\<lparr>publishedAt := 1705276800000\<rparr>]
     = Inr ([(syncedPost 1705284000000)\<lparr> publishedAt := 1705276800000,
                                           syncStatus := Failed \<rparr>], 0, 1)"
  by code_simp+

text \<open>
  Claim C2 as stated fails in two ways. First, when the second run comes more than 24
  hours after the last sync of a post: the stored post \<open>abc123\<close> was last synced at
  1705276800000 and carries the date of the entry \<open>entrySameDate\<close>; a first run at
  1705280400000, one hour later, leaves the store as it is, and a second run on the same
  feed at 1705370400000, 26 hours after the last sync, overwrites the title and the
  other content paths of the post with those of the entry. Second, when the store
  rejects the values of an entry: in the feed \<open>feedBadAuthor\<close> the entry \<open>entrySameDate\<close>
  is followed by an entry for the same post with a later date and an author that is not
  a string. The first run at 1705280400000 leaves the content alone and marks the post
  as failed; for a failed post an overwrite is due, so the second run, one hour later,
  writes the title and the content of \<open>entrySameDate\<close> over the post.
\<close>

theorem second_run_overwrites:
  "syncArticles sampleEnv 1705280400000 feedSameDate idle [samplePost]
     = (Inr \<lparr> success = True, message = None, error = None, syncedCount = Some 0,
              errorCount = Some 0, totalProcessed = Some 1 \<rparr>, idle, [samplePost])
   \<and> snd (snd (syncArticles sampleEnv 1705370400000 feedSameDate idle [samplePost]))
       = [(syncedPost 1705370400000)\<lparr>publishedAt := 1705276800000\<rparr>]
   \<and> title samplePost = ''Getting Started with React and TypeScript''
   \<and> title ((syncedPost 1705370400000)\<lparr>publishedAt := 1705276800000\<rparr>) = ''Hello World''
   \<and> snd (snd (syncArticles sampleEnv 1705280400000 feedBadAuthor idle [samplePost]))
       = [samplePost\<lparr> syncStatus := Failed, lastSyncedAt := 1705280400000,
                       updatedAt := 1705280400000 \<rparr>]
   \<and> snd (snd (syncArticles sampleEnv 1705284000000 feedBadAuthor idle
                  [samplePost\<lparr> syncStatus := Failed, lastSyncedAt := 1705280400000,
                                updatedAt := 1705280400000 \<rparr>]))
       = [(syncedPost 1705284000000)\<lparr> publishedAt := 1705276800000, syncStatus := Failed \<rparr>]
   \<and> title ((syncedPost 1705284000000)\<lparr> publishedAt := 1705276800000, syncStatus := Failed \<rparr>)
       = ''Hello World''"
  by (simp add: syncArticles_def syncBody_def fetchMediumArticles_def feedSameDate_def
      feedBadAuthor_def idle_def syncItem_sameDate syncItem_entryBadAuthor)
    (simp add: samplePost_def syncedPost_def)

section \<open>The identifier stays unique\<close>








end
